theory Spec2Isabelle
  imports Complex_Main "HOL-Library.Log_Nat"
begin

section \<open>JavaScript values of a request\<close>

text \<open>
  A field of a parsed JSON body is absent (\<open>undefined\<close>), \<open>null\<close>, a boolean, a number,
  a string, or an array or object. A number is a finite real: a JSON body carries no
  \<open>NaN\<close>, and the infinities are left out.
\<close>

datatype jsval = JUndefined | JNull | JBool bool | JNum real | JStr string | JObject

fun typeof :: "jsval \<Rightarrow> string" where
  "typeof JUndefined = ''undefined''"
| "typeof JNull = ''object''"
| "typeof (JBool b) = ''boolean''"
| "typeof (JNum x) = ''number''"
| "typeof (JStr s) = ''string''"
| "typeof JObject = ''object''"

text \<open>\<open>!v\<close> is \<open>\<not> truthy v\<close>.\<close>

fun truthy :: "jsval \<Rightarrow> bool" where
  "truthy JUndefined = False"
| "truthy JNull = False"
| "truthy (JBool b) = b"
| "truthy (JNum x) = (x \<noteq> 0)"
| "truthy (JStr s) = (s \<noteq> [])"
| "truthy JObject = True"

text \<open>
  The value behind a field whose \<open>typeof\<close> has been tested. The handlers read a field as
  a string, number or boolean only below the matching \<open>typeof\<close> test, so the missing
  equations are never used.
\<close>

fun string_of :: "jsval \<Rightarrow> string" where
  "string_of (JStr s) = s"

fun number_of :: "jsval \<Rightarrow> real" where
  "number_of (JNum x) = x"

fun bool_of :: "jsval \<Rightarrow> bool" where
  "bool_of (JBool b) = b"

text \<open>\<open>v <= 0\<close>, evaluated by the handlers only where \<open>typeof v\<close> is \<open>number\<close>.\<close>

fun le_zero :: "jsval \<Rightarrow> bool" where
  "le_zero (JNum x) = (x \<le> 0)"
| "le_zero _ = False"

text \<open>
  A string is a list of characters. The handlers compare strings, test them for
  emptiness, split them at spaces and lower their case; nothing else is done to a
  string, so the encoding of its characters plays no part.

  \<open>String.prototype.toLowerCase\<close> belongs to the language, with the case tables of
  Unicode behind it. It is the parameter \<open>toLowerCase\<close> of each handler that calls it;
  what is proved of a handler is proved for every function in its place.
\<close>

text \<open>
  \<open>String.prototype.split\<close> with a one-character separator: the pieces between the
  separators, empty pieces included; the empty string gives one empty piece.
\<close>

fun split_on :: "char \<Rightarrow> string \<Rightarrow> string list" where
  "split_on c [] = [[]]"
| "split_on c (x # xs) =
     (if x = c then [] # split_on c xs
      else (case split_on c xs of p # ps \<Rightarrow> (x # p) # ps | [] \<Rightarrow> [[x]]))"

text \<open>\<open>Array.prototype.findIndex\<close>; \<open>None\<close> is the source's \<open>-1\<close>.\<close>

fun findIndex :: "('a \<Rightarrow> bool) \<Rightarrow> 'a list \<Rightarrow> nat option" where
  "findIndex P [] = None"
| "findIndex P (x # xs) = (if P x then Some 0 else map_option Suc (findIndex P xs))"

section \<open>Numbers\<close>

text \<open>
  A number of JavaScript is a double (IEEE 754 binary64): a sign, a significand of 53
  bits and an exponent. The handlers compare numbers, which is exact, and add once:
  \<open>maxId + 1\<close>. The sum of two doubles is the double nearest to the exact sum, and of
  two nearest doubles the one with the even significand.

  \<open>round_even q\<close> is the integer nearest to \<open>q\<close>, the even one of two. \<open>binade y\<close> is
  the exponent \<open>e\<close> with \<open>2^e \<le> y < 2^(e+1)\<close>, for \<open>y\<close> above 0. The doubles next to
  \<open>y\<close> are the multiples of \<open>2^(binade y - 52)\<close>, of \<open>2^-1074\<close> for the smallest
  numbers, and \<open>round_double y\<close> is the nearest of them. The overflow to \<open>Infinity\<close> is
  left out: a finite double plus 1 stays below it.
\<close>

definition round_even :: "real \<Rightarrow> int" where
  "round_even q =
     (let f = \<lfloor>q\<rfloor>; r = q - of_int f
      in if r < 1 / 2 then f else if 1 / 2 < r then f + 1 else if even f then f else f + 1)"

definition binade :: "real \<Rightarrow> int" where
  "binade y = (if 1 \<le> y then bitlen \<lfloor>y\<rfloor> - 1 else - bitlen (\<lceil>1 / y\<rceil> - 1))"

definition round_double :: "real \<Rightarrow> real" where
  "round_double y =
     (if y = 0 then 0
      else (let e = max (binade \<bar>y\<bar> - 52) (- 1074)
            in of_int (round_even (y / 2 powi e)) * 2 powi e))"

text \<open>\<open>x + y\<close> on doubles.\<close>

definition plus_double :: "real \<Rightarrow> real \<Rightarrow> real" where
  "plus_double x y = round_double (x + y)"

section \<open>The student store (routes/students.js)\<close>

record student =
  sid :: real
  name :: string
  age :: real
  email :: string
  isActive :: bool

text \<open>
  The module's state: the in-memory array \<open>students\<close>, read from
  \<open>data/students.json\<close> when the module is loaded, and the contents of that file.
  The records of the file are taken to be well formed (an id and an age that are
  numbers, a name and an email that are strings, a boolean isActive), and a write to the
  file is taken to succeed.
\<close>

record store =
  students :: "student list"
  json_file :: "student list"

definition saveStudents :: "store \<Rightarrow> store" where
  "saveStudents st = st\<lparr>json_file := students st\<rparr>"

text \<open>The four fields a handler destructures from \<open>req.body || {}\<close>.\<close>

record payload =
  b_name :: jsval
  b_age :: jsval
  b_email :: jsval
  b_isActive :: jsval

text \<open>\<open>Number(req.params.id)\<close>.\<close>

datatype idparam = NaN | IdNum real

text \<open>The identity a guard leaves in \<open>req.user\<close>.\<close>

record user =
  username :: string
  role :: string

text \<open>
  The JSON bodies the handlers send: \<open>{error}\<close>, the not-found template
  \<open>{error: `Student with id ${id} not found`}\<close>, \<open>{error, key: text}\<close> for a hint,
  an example or the verifier's message, \<open>{error, details}\<close>, \<open>{error, student}\<close>,
  \<open>{message, student}\<close> and \<open>{message, user}\<close>. A response is a status code and a body.
\<close>

datatype body =
    Error string
  | ErrorNotFound real
  | ErrorInfo string string string
  | ErrorDetails string "string list"
  | ErrorStudent string student
  | MessageStudent string student
  | MessageUser string user

type_synonym response = "nat \<times> body"

subsection \<open>Validation of a full record (POST and PUT)\<close>

definition name_msg :: string where
  "name_msg = ''name is required and must be a string''"

definition age_msg :: string where
  "age_msg = ''age is required and must be a positive number''"

definition email_msg :: string where
  "email_msg = ''email is required and must be a string''"

definition isActive_msg :: string where
  "isActive_msg = ''isActive is required and must be a boolean''"

text \<open>The four tests of the handler, each pushing its message onto \<open>errors\<close>.\<close>

definition validate :: "payload \<Rightarrow> string list" where
  "validate b =
     (let errors = [];
          errors = (if \<not> truthy (b_name b) \<or> typeof (b_name b) \<noteq> ''string''
                    then errors @ [name_msg] else errors);
          errors = (if b_age b = JUndefined \<or> typeof (b_age b) \<noteq> ''number'' \<or> le_zero (b_age b)
                    then errors @ [age_msg] else errors);
          errors = (if \<not> truthy (b_email b) \<or> typeof (b_email b) \<noteq> ''string''
                    then errors @ [email_msg] else errors);
          errors = (if typeof (b_isActive b) \<noteq> ''boolean''
                    then errors @ [isActive_msg] else errors)
      in errors)"

subsection \<open>POST /students\<close>

definition create ::
  "(string \<Rightarrow> string) \<Rightarrow> payload \<Rightarrow> store \<Rightarrow> store \<times> response" where
  "create toLowerCase b st =
     (let errors = validate b in
      if length errors > 0 then (st, 400, ErrorDetails ''Validation failed'' errors)
      else
        (case find (\<lambda>s. toLowerCase (email s) = toLowerCase (string_of (b_email b)))
                (students st) of
           Some existing \<Rightarrow>
             (st, 409, ErrorStudent ''A student with this email already exists'' existing)
         | None \<Rightarrow>
             (let maxId = foldl (\<lambda>mx s. if sid s > mx then sid s else mx) 0 (students st);
                  newStudent = \<lparr>sid = plus_double maxId 1, name = string_of (b_name b),
                                age = number_of (b_age b), email = string_of (b_email b),
                                isActive = bool_of (b_isActive b)\<rparr>
              in (saveStudents (st\<lparr>students := students st @ [newStudent]\<rparr>),
                  201, MessageStudent ''Student created'' newStudent))))"

subsection \<open>PUT /students/:id\<close>

definition replace ::
  "(string \<Rightarrow> string) \<Rightarrow> idparam \<Rightarrow> payload \<Rightarrow> store \<Rightarrow> store \<times> response" where
  "replace toLowerCase p b st =
     (case p of
        NaN \<Rightarrow> (st, 400, Error ''Invalid ID. Must be a number.'')
      | IdNum i \<Rightarrow>
         (case findIndex (\<lambda>s. sid s = i) (students st) of
            None \<Rightarrow> (st, 404, ErrorNotFound i)
          | Some index \<Rightarrow>
             (let errors = validate b in
              if length errors > 0 then (st, 400, ErrorDetails ''Validation failed'' errors)
              else
                (case find (\<lambda>s. toLowerCase (email s) = toLowerCase (string_of (b_email b))
                                 \<and> sid s \<noteq> i) (students st) of
                   Some existing \<Rightarrow>
                     (st, 409,
                      ErrorStudent ''Another student with this email already exists'' existing)
                 | None \<Rightarrow>
                     (let updatedStudent = \<lparr>sid = i, name = string_of (b_name b),
                                age = number_of (b_age b), email = string_of (b_email b),
                                isActive = bool_of (b_isActive b)\<rparr>
                      in (saveStudents (st\<lparr>students := (students st)[index := updatedStudent]\<rparr>),
                          200, MessageStudent ''Student updated'' updatedStudent))))))"

subsection \<open>PATCH /students/:id\<close>

text \<open>
  The handler holds the record found in the array and assigns to its fields; the array
  sees each assignment at once. Here the record is the one at index \<open>k\<close>, and an
  assignment updates the array at \<open>k\<close>. Each block of the handler either answers (and
  the handler returns) or hands on the store.
\<close>

definition patch_name :: "nat \<Rightarrow> jsval \<Rightarrow> store \<Rightarrow> response + store" where
  "patch_name k v st =
     (if v \<noteq> JUndefined then
        (if typeof v \<noteq> ''string'' then Inl (400, Error ''Invalid 'name'. Must be a string.'')
         else Inr (st\<lparr>students := (students st)[k := (students st ! k)\<lparr>name := string_of v\<rparr>]\<rparr>))
      else Inr st)"

definition patch_age :: "nat \<Rightarrow> jsval \<Rightarrow> store \<Rightarrow> response + store" where
  "patch_age k v st =
     (if v \<noteq> JUndefined then
        (if typeof v \<noteq> ''number'' \<or> le_zero v
         then Inl (400, Error ''Invalid 'age'. Must be a positive number.'')
         else Inr (st\<lparr>students := (students st)[k := (students st ! k)\<lparr>age := number_of v\<rparr>]\<rparr>))
      else Inr st)"

definition patch_email ::
  "(string \<Rightarrow> string) \<Rightarrow> real \<Rightarrow> nat \<Rightarrow> jsval \<Rightarrow> store \<Rightarrow> response + store" where
  "patch_email toLowerCase i k v st =
     (if v \<noteq> JUndefined then
        (if typeof v \<noteq> ''string'' then Inl (400, Error ''Invalid 'email'. Must be a string.'')
         else
           (case find (\<lambda>s. toLowerCase (email s) = toLowerCase (string_of v) \<and> sid s \<noteq> i)
                   (students st) of
              Some existing \<Rightarrow>
                Inl (409, ErrorStudent ''Another student with this email already exists'' existing)
            | None \<Rightarrow>
                Inr (st\<lparr>students := (students st)[k := (students st ! k)\<lparr>email := string_of v\<rparr>]\<rparr>)))
      else Inr st)"

definition patch_isActive :: "nat \<Rightarrow> jsval \<Rightarrow> store \<Rightarrow> response + store" where
  "patch_isActive k v st =
     (if v \<noteq> JUndefined then
        (if typeof v \<noteq> ''boolean'' then Inl (400, Error ''Invalid 'isActive'. Must be a boolean.'')
         else Inr (st\<lparr>students := (students st)[k := (students st ! k)\<lparr>isActive := bool_of v\<rparr>]\<rparr>))
      else Inr st)"

definition patch ::
  "(string \<Rightarrow> string) \<Rightarrow> idparam \<Rightarrow> payload \<Rightarrow> store \<Rightarrow> store \<times> response" where
  "patch toLowerCase p b st =
     (case p of
        NaN \<Rightarrow> (st, 400, Error ''Invalid ID. Must be a number.'')
      | IdNum i \<Rightarrow>
         (case findIndex (\<lambda>s. sid s = i) (students st) of
            None \<Rightarrow> (st, 404, ErrorNotFound i)
          | Some k \<Rightarrow>
             (case patch_name k (b_name b) st of
                Inl r \<Rightarrow> (st, r)
              | Inr st1 \<Rightarrow>
                 (case patch_age k (b_age b) st1 of
                    Inl r \<Rightarrow> (st1, r)
                  | Inr st2 \<Rightarrow>
                     (case patch_email toLowerCase i k (b_email b) st2 of
                        Inl r \<Rightarrow> (st2, r)
                      | Inr st3 \<Rightarrow>
                         (case patch_isActive k (b_isActive b) st3 of
                            Inl r \<Rightarrow> (st3, r)
                          | Inr st4 \<Rightarrow>
                             (saveStudents st4, 200,
                              MessageStudent ''Student partially updated''
                                (students st4 ! k))))))))"

subsection \<open>DELETE /students/:id\<close>

definition delete :: "idparam \<Rightarrow> store \<Rightarrow> store \<times> response" where
  "delete p st =
     (case p of
        NaN \<Rightarrow> (st, 400, Error ''Invalid ID. Must be a number.'')
      | IdNum i \<Rightarrow>
         (case findIndex (\<lambda>s. sid s = i) (students st) of
            None \<Rightarrow> (st, 404, ErrorNotFound i)
          | Some index \<Rightarrow>
             (let deleted = students st ! index
              in (saveStudents
                    (st\<lparr>students := take index (students st) @ drop (Suc index) (students st)\<rparr>),
                  200, MessageStudent ''Student deleted'' deleted))))"

section \<open>The guards (server.js)\<close>

text \<open>
  \<open>jwt.verify\<close> belongs to the jsonwebtoken library: it checks the signature and the
  expiry of a token against the secret and the clock, and hands the callback either an
  error or the decoded payload. It is the parameter \<open>verify\<close>, from a token to the
  error's message or the payload. A header of a request is a string or absent.
\<close>

definition requireJwt :: "(string \<Rightarrow> string + 'u) \<Rightarrow> string option \<Rightarrow> response + 'u" where
  "requireJwt verify authHeader =
     (case authHeader of
        None \<Rightarrow> Inl (401, ErrorInfo ''Missing Authorization header'' ''hint''
                      ''Send: Authorization: Bearer <token>'')
      | Some h \<Rightarrow>
         (if h = [] then Inl (401, ErrorInfo ''Missing Authorization header'' ''hint''
                                ''Send: Authorization: Bearer <token>'')
          else
            (let parts = split_on CHR '' '' h in
             if length parts \<noteq> 2 \<or> parts ! 0 \<noteq> ''Bearer''
             then Inl (401, ErrorInfo ''Invalid Authorization header format'' ''example''
                         ''Authorization: Bearer <token>'')
             else
               (let token = parts ! 1 in
                case verify token of
                  Inl err \<Rightarrow> Inl (401, ErrorInfo ''Invalid or expired token'' ''details'' err)
                | Inr decoded \<Rightarrow> Inr decoded))))"

definition requireCookieLogin :: "string option \<Rightarrow> response + user" where
  "requireCookieLogin sessionId =
     (case sessionId of
        None \<Rightarrow> Inl (401, Error
                  ''Missing sessionId cookie. Please login via /auth/login-cookie.'')
      | Some c \<Rightarrow>
         (if c = [] then Inl (401, Error
                  ''Missing sessionId cookie. Please login via /auth/login-cookie.'')
          else if c \<noteq> ''dummy-session-id''
          then Inl (401, Error ''Invalid session cookie. Please login again.'')
          else Inr \<lparr>username = ''cookieUser'', role = ''cookie-tester''\<rparr>))"

text \<open>
  A route with a guard in front of its handler: the guard answers and the handler does
  not run, or the guard calls \<open>next\<close> and the handler runs with \<open>req.user\<close> set.
\<close>

definition protected ::
  "response + 'u \<Rightarrow> ('u \<Rightarrow> store \<Rightarrow> store \<times> response) \<Rightarrow> store \<Rightarrow> store \<times> response" where
  "protected guard handler st =
     (case guard of Inl r \<Rightarrow> (st, r) | Inr u \<Rightarrow> handler u st)"

definition post_students ::
  "(string \<Rightarrow> string) \<Rightarrow> (string \<Rightarrow> string + 'u) \<Rightarrow> string option \<Rightarrow> payload \<Rightarrow> store
     \<Rightarrow> store \<times> response" where
  "post_students toLowerCase verify authHeader b =
     protected (requireJwt verify authHeader) (\<lambda>u. create toLowerCase b)"

definition put_students ::
  "(string \<Rightarrow> string) \<Rightarrow> (string \<Rightarrow> string + 'u) \<Rightarrow> string option \<Rightarrow> idparam \<Rightarrow> payload
     \<Rightarrow> store \<Rightarrow> store \<times> response" where
  "put_students toLowerCase verify authHeader p b =
     protected (requireJwt verify authHeader) (\<lambda>u. replace toLowerCase p b)"

definition patch_students ::
  "(string \<Rightarrow> string) \<Rightarrow> (string \<Rightarrow> string + 'u) \<Rightarrow> string option \<Rightarrow> idparam \<Rightarrow> payload
     \<Rightarrow> store \<Rightarrow> store \<times> response" where
  "patch_students toLowerCase verify authHeader p b =
     protected (requireJwt verify authHeader) (\<lambda>u. patch toLowerCase p b)"

definition delete_students ::
  "(string \<Rightarrow> string + 'u) \<Rightarrow> string option \<Rightarrow> idparam \<Rightarrow> store \<Rightarrow> store \<times> response" where
  "delete_students verify authHeader p =
     protected (requireJwt verify authHeader) (\<lambda>u. delete p)"

definition cookie_only :: "string option \<Rightarrow> store \<Rightarrow> store \<times> response" where
  "cookie_only sessionId =
     protected (requireCookieLogin sessionId)
       (\<lambda>u st. (st, 200,
          MessageUser ''This students route is protected by cookie-based auth.'' u))"

section \<open>The properties, as the specification words them\<close>

definition status :: "store \<times> response \<Rightarrow> nat" where
  "status r = fst (snd r)"

text \<open>The rules of the data model for the four fields.\<close>

definition nonempty_text :: "jsval \<Rightarrow> bool" where
  "nonempty_text v = (case v of JStr s \<Rightarrow> s \<noteq> [] | _ \<Rightarrow> False)"

definition positive_number :: "jsval \<Rightarrow> bool" where
  "positive_number v = (case v of JNum x \<Rightarrow> 0 < x | _ \<Rightarrow> False)"

definition is_boolean :: "jsval \<Rightarrow> bool" where
  "is_boolean v = (case v of JBool b \<Rightarrow> True | _ \<Rightarrow> False)"

definition is_text :: "jsval \<Rightarrow> bool" where
  "is_text v = (case v of JStr s \<Rightarrow> True | _ \<Rightarrow> False)"

text \<open>
  Equality of strings up to the case of their letters is a relation \<open>ci\<close> on strings.
  A lowering \<open>lc\<close> decides it when two strings have the same lower-case form exactly
  when they are related.
\<close>

definition decides :: "(string \<Rightarrow> string) \<Rightarrow> (string \<Rightarrow> string \<Rightarrow> bool) \<Rightarrow> bool" where
  "decides lc ci = (\<forall>a b. (lc a = lc b) = ci a b)"

text \<open>
  The two invariants of the store: no two records have emails that are equal up to case,
  and no two records have the same id.
\<close>

fun emails_unique :: "(string \<Rightarrow> string \<Rightarrow> bool) \<Rightarrow> student list \<Rightarrow> bool" where
  "emails_unique ci [] = True"
| "emails_unique ci (s # S) = ((\<forall>t\<in>set S. \<not> ci (email s) (email t)) \<and> emails_unique ci S)"

text \<open>In the words of a lowering: the comparison the handlers make, and its invariant.\<close>

definition same_email :: "(string \<Rightarrow> string) \<Rightarrow> string \<Rightarrow> string \<Rightarrow> bool" where
  "same_email lc a b = (lc a = lc b)"

definition emails_distinct :: "(string \<Rightarrow> string) \<Rightarrow> student list \<Rightarrow> bool" where
  "emails_distinct lc S = distinct (map (\<lambda>s. lc (email s)) S)"

definition ids_unique :: "student list \<Rightarrow> bool" where
  "ids_unique S = distinct (map sid S)"

text \<open>
  A payload field written to a record when it is present, as PATCH does it.
\<close>

definition apply_name :: "jsval \<Rightarrow> student \<Rightarrow> student" where
  "apply_name v s = (if v = JUndefined then s else s\<lparr>name := string_of v\<rparr>)"

definition apply_age :: "jsval \<Rightarrow> student \<Rightarrow> student" where
  "apply_age v s = (if v = JUndefined then s else s\<lparr>age := number_of v\<rparr>)"

definition apply_email :: "jsval \<Rightarrow> student \<Rightarrow> student" where
  "apply_email v s = (if v = JUndefined then s else s\<lparr>email := string_of v\<rparr>)"

definition apply_isActive :: "jsval \<Rightarrow> student \<Rightarrow> student" where
  "apply_isActive v s = (if v = JUndefined then s else s\<lparr>isActive := bool_of v\<rparr>)"

text \<open>The answers of the two guards, and the identity the cookie guard gives.\<close>

definition missing_header :: response where
  "missing_header = (401, ErrorInfo ''Missing Authorization header'' ''hint''
                       ''Send: Authorization: Bearer <token>'')"

definition bad_format :: response where
  "bad_format = (401, ErrorInfo ''Invalid Authorization header format'' ''example''
                   ''Authorization: Bearer <token>'')"

definition invalid_token :: "string \<Rightarrow> response" where
  "invalid_token err = (401, ErrorInfo ''Invalid or expired token'' ''details'' err)"

definition missing_cookie :: response where
  "missing_cookie = (401, Error ''Missing sessionId cookie. Please login via /auth/login-cookie.'')"

definition invalid_session :: response where
  "invalid_session = (401, Error ''Invalid session cookie. Please login again.'')"

definition cookie_user :: user where
  "cookie_user = \<lparr>username = ''cookieUser'', role = ''cookie-tester''\<rparr>"

text \<open>A header that splits on spaces into exactly two parts, the first one \<open>Bearer\<close>.\<close>

definition bearer_parts :: "string \<Rightarrow> bool" where
  "bearer_parts h =
     (let parts = split_on CHR '' '' h in length parts = 2 \<and> parts ! 0 = ''Bearer'')"

text \<open>
  A present field that PATCH turns down: a name or an email that is not a string, an age
  that is not a number above 0, an isActive that is not a boolean.
\<close>

definition text_fails :: "jsval \<Rightarrow> bool" where
  "text_fails v = (v \<noteq> JUndefined \<and> \<not> is_text v)"

definition age_fails :: "jsval \<Rightarrow> bool" where
  "age_fails v = (v \<noteq> JUndefined \<and> \<not> positive_number v)"

definition isActive_fails :: "jsval \<Rightarrow> bool" where
  "isActive_fails v = (v \<noteq> JUndefined \<and> \<not> is_boolean v)"

text \<open>
  The records of another student (an id other than \<open>i\<close>) whose email has the same
  lower-case form.
\<close>

definition others_with_email ::
  "(string \<Rightarrow> string) \<Rightarrow> real \<Rightarrow> string \<Rightarrow> student list \<Rightarrow> student list" where
  "others_with_email lc i e S = filter (\<lambda>s. same_email lc (email s) e \<and> sid s \<noteq> i) S"

text \<open>The answers of PATCH to a field it turns down.\<close>

definition invalid_name :: response where
  "invalid_name = (400, Error ''Invalid 'name'. Must be a string.'')"

definition invalid_age :: response where
  "invalid_age = (400, Error ''Invalid 'age'. Must be a positive number.'')"

definition invalid_email :: response where
  "invalid_email = (400, Error ''Invalid 'email'. Must be a string.'')"

definition invalid_isActive :: response where
  "invalid_isActive = (400, Error ''Invalid 'isActive'. Must be a boolean.'')"

text \<open>Both invariants of the array of a store.\<close>

definition store_ok :: "(string \<Rightarrow> string) \<Rightarrow> store \<Rightarrow> bool" where
  "store_ok lc st = (emails_distinct lc (students st) \<and> ids_unique (students st))"

section \<open>Sample data\<close>

text \<open>The three records of \<open>data/students.json\<close> as the setup guide lists them.\<close>

definition sample_students :: "student list" where
  "sample_students =
     [\<lparr>sid = 1, name = ''Alice Johnson'', age = 20, email = ''alice@example.com'',
       isActive = True\<rparr>,
      \<lparr>sid = 2, name = ''Bob Smith'', age = 22, email = ''bob@example.com'',
       isActive = True\<rparr>,
      \<lparr>sid = 3, name = ''Charlie Brown'', age = 19, email = ''charlie@example.com'',
       isActive = False\<rparr>]"

definition sample_store :: store where
  "sample_store = \<lparr>students = sample_students, json_file = sample_students\<rparr>"

text \<open>
  A stand-in for the library's verifier in the examples: one token it accepts, one it
  finds expired, and every other it rejects.
\<close>

definition sample_verify :: "string \<Rightarrow> string + user" where
  "sample_verify t =
     (if t = ''good.demo.token'' then Inr \<lparr>username = ''testuser'', role = ''student-admin''\<rparr>
      else if t = ''old.demo.token'' then Inl ''jwt expired''
      else Inl ''invalid signature'')"

text \<open>
  A lowering for the examples: the 26 letters of ASCII, every other character kept.
  Beside it, stated without it, what it is to differ in the case of letters only: two
  characters are the same letter when they are equal or are the upper and the lower form
  of one letter, and two strings are the same up to case when they have the same length
  and the same letters place by place.
\<close>

definition upper_letters :: string where
  "upper_letters = ''ABCDEFGHIJKLMNOPQRSTUVWXYZ''"

definition lower_letters :: string where
  "lower_letters = ''abcdefghijklmnopqrstuvwxyz''"

definition lower_char :: "char \<Rightarrow> char" where
  "lower_char c =
     (case map_of (zip upper_letters lower_letters) c of Some d \<Rightarrow> d | None \<Rightarrow> c)"

definition lower_ascii :: "string \<Rightarrow> string" where
  "lower_ascii s = map lower_char s"

definition same_letter :: "char \<Rightarrow> char \<Rightarrow> bool" where
  "same_letter c d =
     (c = d \<or> (c, d) \<in> set (zip upper_letters lower_letters)
            \<or> (d, c) \<in> set (zip upper_letters lower_letters))"

definition same_up_to_case :: "string \<Rightarrow> string \<Rightarrow> bool" where
  "same_up_to_case a b = list_all2 same_letter a b"

text \<open>A store whose one record has the id \<open>2^53\<close>.\<close>

definition big_id_store :: store where
  "big_id_store =
     \<lparr>students = [\<lparr>sid = 9007199254740992, name = ''Eve Adams'', age = 30,
                    email = ''eve@example.com'', isActive = True\<rparr>],
      json_file = [\<lparr>sid = 9007199254740992, name = ''Eve Adams'', age = 30,
                    email = ''eve@example.com'', isActive = True\<rparr>]\<rparr>"

text \<open>Payloads and a store for the examples.\<close>

definition david :: payload where
  "david = \<lparr>b_name = JStr ''David Lee'', b_age = JNum 21,
            b_email = JStr ''david@example.com'', b_isActive = JBool True\<rparr>"

definition shouting_alice :: payload where
  "shouting_alice = \<lparr>b_name = JStr ''Alice Two'', b_age = JNum 30,
            b_email = JStr ''ALICE@Example.COM'', b_isActive = JBool False\<rparr>"

definition age_only :: "real \<Rightarrow> payload" where
  "age_only a = \<lparr>b_name = JUndefined, b_age = JNum a, b_email = JUndefined,
                 b_isActive = JUndefined\<rparr>"

definition empty_name_only :: payload where
  "empty_name_only = \<lparr>b_name = JStr [], b_age = JUndefined, b_email = JUndefined,
                       b_isActive = JUndefined\<rparr>"

definition name_then_bad_age :: payload where
  "name_then_bad_age = \<lparr>b_name = JStr ''Robert Smith'', b_age = JNum (- 1),
                         b_email = JUndefined, b_isActive = JUndefined\<rparr>"

definition below_zero_store :: store where
  "below_zero_store =
     \<lparr>students = [\<lparr>sid = - 5, name = ''Eve Adams'', age = 30, email = ''eve@example.com'',
                    isActive = True\<rparr>],
      json_file = [\<lparr>sid = - 5, name = ''Eve Adams'', age = 30, email = ''eve@example.com'',
                    isActive = True\<rparr>]\<rparr>"

section \<open>Full validation\<close>

lemma name_rule: "(\<not> truthy v \<or> typeof v \<noteq> ''string'') = (\<not> nonempty_text v)"
  by (cases v) (simp_all add: nonempty_text_def)

lemma age_rule:
  "(v = JUndefined \<or> typeof v \<noteq> ''number'' \<or> le_zero v) = (\<not> positive_number v)"
  by (cases v) (auto simp: positive_number_def)

lemma isActive_rule: "(typeof v \<noteq> ''boolean'') = (\<not> is_boolean v)"
  by (cases v) (simp_all add: is_boolean_def)

lemma validate_eq:
  "validate b =
     (if nonempty_text (b_name b) then [] else [name_msg]) @
     (if positive_number (b_age b) then [] else [age_msg]) @
     (if nonempty_text (b_email b) then [] else [email_msg]) @
     (if is_boolean (b_isActive b) then [] else [isActive_msg])"
  unfolding validate_def Let_def name_rule age_rule isActive_rule by simp

lemma validate_Nil_iff:
  "validate b = [] \<longleftrightarrow>
     nonempty_text (b_name b) \<and> positive_number (b_age b) \<and>
     nonempty_text (b_email b) \<and> is_boolean (b_isActive b)"
  by (simp add: validate_eq)

lemma create_invalid:
  "validate b \<noteq> [] \<Longrightarrow>
   create lc b st = (st, 400, ErrorDetails ''Validation failed'' (validate b))"
  by (simp add: create_def Let_def)

lemma create_valid_status: "validate b = [] \<Longrightarrow> status (create lc b st) \<noteq> 400"
  by (simp add: create_def Let_def status_def saveStudents_def split: option.splits)

lemma replace_invalid:
  "findIndex (\<lambda>s. sid s = i) (students st) = Some k \<Longrightarrow> validate b \<noteq> [] \<Longrightarrow>
   replace lc (IdNum i) b st = (st, 400, ErrorDetails ''Validation failed'' (validate b))"
  by (simp add: replace_def Let_def)

lemma replace_valid_status:
  "findIndex (\<lambda>s. sid s = i) (students st) = Some k \<Longrightarrow> validate b = [] \<Longrightarrow>
   status (replace lc (IdNum i) b st) \<noteq> 400"
  by (simp add: replace_def Let_def status_def saveStudents_def split: option.splits)

text \<open>
  Claim C5. The list of messages of a payload holds, in the order name, age, email,
  isActive, one message for each field that breaks its rule (name and email a non-empty
  string, age a number above 0, isActive a boolean). POST answers 400 with the whole list
  when the list is not empty, and does not answer 400 when it is empty; PUT does the same
  once the id has been found in the store.
\<close>

theorem full_validation_collects:
  "validate b =
     (if nonempty_text (b_name b) then [] else [name_msg]) @
     (if positive_number (b_age b) then [] else [age_msg]) @
     (if nonempty_text (b_email b) then [] else [email_msg]) @
     (if is_boolean (b_isActive b) then [] else [isActive_msg])
   \<and> (validate b \<noteq> [] \<longrightarrow>
        create lc b st = (st, 400, ErrorDetails ''Validation failed'' (validate b)))
   \<and> (validate b = [] \<longrightarrow> status (create lc b st) \<noteq> 400)
   \<and> (findIndex (\<lambda>s. sid s = i) (students st) = Some k \<longrightarrow>
        (validate b \<noteq> [] \<longrightarrow>
           replace lc (IdNum i) b st = (st, 400, ErrorDetails ''Validation failed'' (validate b)))
        \<and> (validate b = [] \<longrightarrow> status (replace lc (IdNum i) b st) \<noteq> 400))"
  using validate_eq create_invalid create_valid_status replace_invalid replace_valid_status
  by blast

theorem full_validation_collects_witness:
  "validate \<lparr>b_name = JStr '''', b_age = JNum 0, b_email = JNull, b_isActive = JStr ''yes''\<rparr>
     = [name_msg, age_msg, email_msg, isActive_msg]
   \<and> create lower_ascii \<lparr>b_name = JStr '''', b_age = JNum 0, b_email = JNull, b_isActive = JStr ''yes''\<rparr>
        sample_store
     = (sample_store, 400,
        ErrorDetails ''Validation failed'' [name_msg, age_msg, email_msg, isActive_msg])
   \<and> replace lower_ascii (IdNum 2)
        \<lparr>b_name = JStr '''', b_age = JNum 0, b_email = JNull, b_isActive = JStr ''yes''\<rparr>
        sample_store
     = (sample_store, 400,
        ErrorDetails ''Validation failed'' [name_msg, age_msg, email_msg, isActive_msg])"
  using full_validation_collects
    [where b = "\<lparr>b_name = JStr '''', b_age = JNum 0, b_email = JNull,
                 b_isActive = JStr ''yes''\<rparr>"
       and lc = lower_ascii and st = sample_store and i = 2 and k = 1]
  by (simp add: nonempty_text_def positive_number_def is_boolean_def sample_store_def
      sample_students_def)

section \<open>The guards\<close>

lemma split_on_nonempty: "split_on c s \<noteq> []"
  by (induction s) (auto split: list.splits)

lemma split_on_no_sep: "c \<notin> set s \<Longrightarrow> split_on c s = [s]"
  by (induction s) auto

lemma split_on_append: "c \<notin> set a \<Longrightarrow> split_on c (a @ c # r) = a # split_on c r"
  by (induction a) auto

lemma split_on_head:
  "split_on c s = a # ps \<Longrightarrow> c \<notin> set a \<and> (if ps = [] then s = a else \<exists>r. s = a @ c # r \<and> split_on c r = ps)"
proof (induction s arbitrary: a ps)
  case Nil
  then show ?case by simp
next
  case (Cons x xs)
  show ?case
  proof (cases "x = c")
    case True
    with Cons.prems have "a = []" "ps = split_on c xs" by auto
    then show ?thesis using True split_on_nonempty[of c xs] by auto
  next
    case False
    obtain p qs where pq: "split_on c xs = p # qs"
      using split_on_nonempty[of c xs] by (cases "split_on c xs") auto
    with Cons.prems False have a: "a = x # p" and ps: "ps = qs" by auto
    from Cons.IH[OF pq] have ih: "c \<notin> set p"
      "if qs = [] then xs = p else \<exists>r. xs = p @ c # r \<and> split_on c r = qs" by auto
    show ?thesis using a ps ih False by (auto split: if_splits)
  qed
qed

lemma split_on_two_iff:
  "split_on c s = [a, b] \<longleftrightarrow> s = a @ c # b \<and> c \<notin> set a \<and> c \<notin> set b"
proof
  assume h: "split_on c s = [a, b]"
  from split_on_head[OF h] obtain r where r: "c \<notin> set a" "s = a @ c # r" "split_on c r = [b]"
    by auto
  from split_on_head[OF r(3)] have "c \<notin> set b" "r = b" by auto
  with r show "s = a @ c # b \<and> c \<notin> set a \<and> c \<notin> set b" by simp
next
  assume "s = a @ c # b \<and> c \<notin> set a \<and> c \<notin> set b"
  then show "split_on c s = [a, b]" by (simp add: split_on_append split_on_no_sep)
qed

lemma parts_test:
  "(length (split_on CHR '' '' h) \<noteq> 2 \<or> split_on CHR '' '' h ! 0 \<noteq> ''Bearer'')
     = (\<not> (\<exists>t. h = ''Bearer '' @ t \<and> CHR '' '' \<notin> set t))"
proof -
  have "(length (split_on CHR '' '' h) = 2 \<and> split_on CHR '' '' h ! 0 = ''Bearer'')
        = (\<exists>t. split_on CHR '' '' h = [''Bearer'', t])"
    by (cases "split_on CHR '' '' h"; cases "tl (split_on CHR '' '' h)") auto
  also have "\<dots> = (\<exists>t. h = ''Bearer '' @ t \<and> CHR '' '' \<notin> set t)"
    by (simp add: split_on_two_iff)
  finally show ?thesis by blast
qed

lemma requireJwt_bearer:
  "CHR '' '' \<notin> set t \<Longrightarrow>
   requireJwt verify (Some (''Bearer '' @ t)) =
     (case verify t of
        Inl err \<Rightarrow> Inl (401, ErrorInfo ''Invalid or expired token'' ''details'' err)
      | Inr decoded \<Rightarrow> Inr decoded)"
  by (simp add: requireJwt_def Let_def split_on_no_sep)

lemma requireJwt_format:
  "h \<noteq> [] \<Longrightarrow> \<not> (\<exists>t. h = ''Bearer '' @ t \<and> CHR '' '' \<notin> set t) \<Longrightarrow>
   requireJwt verify (Some h) =
     Inl (401, ErrorInfo ''Invalid Authorization header format'' ''example''
            ''Authorization: Bearer <token>'')"
  unfolding requireJwt_def Let_def using parts_test[of h] by simp

lemma bearer_parts_iff:
  "bearer_parts h \<longleftrightarrow> (\<exists>t. h = ''Bearer '' @ t \<and> CHR '' '' \<notin> set t)"
  unfolding bearer_parts_def Let_def using parts_test[of h] by blast

lemma bearer_parts_drop:
  "bearer_parts h \<Longrightarrow> h = ''Bearer '' @ drop 7 h \<and> CHR '' '' \<notin> set (drop 7 h)"
  by (auto simp: bearer_parts_iff)

lemma requireJwt_Some:
  "requireJwt verify (Some h) =
     (if h = [] then Inl missing_header
      else if \<not> bearer_parts h then Inl bad_format
      else (case verify (drop 7 h) of Inl err \<Rightarrow> Inl (invalid_token err) | Inr u \<Rightarrow> Inr u))"
proof (cases "h = []")
  case True
  then show ?thesis by (simp add: requireJwt_def missing_header_def)
next
  case False
  show ?thesis
  proof (cases "bearer_parts h")
    case True
    from bearer_parts_drop[OF True] have h: "h = ''Bearer '' @ drop 7 h"
      and t: "CHR '' '' \<notin> set (drop 7 h)" by auto
    have "requireJwt verify (Some (''Bearer '' @ drop 7 h)) =
          (case verify (drop 7 h) of Inl err \<Rightarrow> Inl (invalid_token err) | Inr u \<Rightarrow> Inr u)"
      using requireJwt_bearer[OF t, of verify] by (simp add: invalid_token_def split: sum.split)
    with h True False show ?thesis by simp
  next
    case nb: False
    then have "\<not> (\<exists>t. h = ''Bearer '' @ t \<and> CHR '' '' \<notin> set t)"
      by (simp add: bearer_parts_iff)
    from requireJwt_format[OF False this] nb False show ?thesis
      by (simp add: bad_format_def)
  qed
qed

lemma requireJwt_None: "requireJwt verify None = Inl missing_header"
  by (simp add: requireJwt_def missing_header_def)

lemma requireJwt_status:
  "requireJwt verify a = Inl r \<Longrightarrow> fst r = 401"
  by (cases a)
     (auto simp: requireJwt_None requireJwt_Some missing_header_def bad_format_def
        invalid_token_def split: if_splits sum.splits)

lemma protected_fail: "g = Inl r \<Longrightarrow> protected g handler st = (st, r)"
  by (simp add: protected_def)

lemma protected_pass: "g = Inr u \<Longrightarrow> protected g handler st = handler u st"
  by (simp add: protected_def)

text \<open>
  Claim C4. The bearer guard answers 401 with the missing-header error when the
  Authorization header is absent or is the empty string; otherwise 401 with the format
  error when the header does not split on spaces into exactly two parts with first part
  \<open>Bearer\<close>, which is to say when it is not \<open>Bearer\<close>, one space and a token
  without a space; otherwise 401 with the invalid-or-expired error and the verifier's
  message when the verifier rejects the token; otherwise it hands the decoded payload on.
  The three errors differ from each other. A request the guard rejects leaves the store
  as it was on each of the four protected student routes, and a request it accepts gets
  the answer of the route's handler.
\<close>

theorem requireJwt_outcomes:
  "requireJwt verify None = Inl missing_header
   \<and> requireJwt verify (Some h) =
       (if h = [] then Inl missing_header
        else if \<not> bearer_parts h then Inl bad_format
        else (case verify (drop 7 h) of
                Inl err \<Rightarrow> Inl (invalid_token err)
              | Inr decoded \<Rightarrow> Inr decoded))
   \<and> (bearer_parts h \<longleftrightarrow> (\<exists>t. h = ''Bearer '' @ t \<and> CHR '' '' \<notin> set t))
   \<and> missing_header \<noteq> bad_format \<and> missing_header \<noteq> invalid_token err
   \<and> bad_format \<noteq> invalid_token err
   \<and> (\<forall>r. requireJwt verify a = Inl r \<longrightarrow>
         fst r = 401
         \<and> post_students lc verify a b st = (st, r)
         \<and> put_students lc verify a p b st = (st, r)
         \<and> patch_students lc verify a p b st = (st, r)
         \<and> delete_students verify a p st = (st, r))
   \<and> (\<forall>u. requireJwt verify a = Inr u \<longrightarrow>
         post_students lc verify a b st = create lc b st
         \<and> put_students lc verify a p b st = replace lc p b st
         \<and> patch_students lc verify a p b st = patch lc p b st
         \<and> delete_students verify a p st = delete p st)"
proof -
  have d: "missing_header \<noteq> bad_format \<and> missing_header \<noteq> invalid_token err
           \<and> bad_format \<noteq> invalid_token err"
    by (simp add: missing_header_def bad_format_def invalid_token_def)
  have f: "\<forall>r. requireJwt verify a = Inl r \<longrightarrow>
         fst r = 401
         \<and> post_students lc verify a b st = (st, r)
         \<and> put_students lc verify a p b st = (st, r)
         \<and> patch_students lc verify a p b st = (st, r)
         \<and> delete_students verify a p st = (st, r)"
    by (simp add: requireJwt_status post_students_def put_students_def patch_students_def
        delete_students_def protected_fail)
  have s: "\<forall>u. requireJwt verify a = Inr u \<longrightarrow>
         post_students lc verify a b st = create lc b st
         \<and> put_students lc verify a p b st = replace lc p b st
         \<and> patch_students lc verify a p b st = patch lc p b st
         \<and> delete_students verify a p st = delete p st"
    by (simp add: post_students_def put_students_def patch_students_def
        delete_students_def protected_pass)
  show ?thesis
    using requireJwt_None[of verify] requireJwt_Some[of verify h] bearer_parts_iff[of h] d f s
    by blast
qed

theorem requireJwt_outcomes_witness:
  "requireJwt sample_verify (Some ''Basic abc'') = Inl bad_format
   \<and> delete_students sample_verify (Some ''Basic abc'') (IdNum 1) sample_store
       = (sample_store, bad_format)
   \<and> requireJwt sample_verify (Some ''Bearer old.demo.token'')
       = Inl (invalid_token ''jwt expired'')
   \<and> requireJwt sample_verify (Some ''Bearer good.demo.token'')
       = Inr \<lparr>username = ''testuser'', role = ''student-admin''\<rparr>"
proof -
  have nb: "\<not> bearer_parts ''Basic abc''"
    by (simp add: bearer_parts_def)
  note t = requireJwt_outcomes[where verify = sample_verify and h = "''Basic abc''"
      and err = "''jwt expired''" and a = "Some ''Basic abc''" and lc = lower_ascii
      and b = "\<lparr>b_name = JUndefined, b_age = JUndefined, b_email = JUndefined,
                b_isActive = JUndefined\<rparr>"
      and st = sample_store and p = "IdNum 1"]
  from t nb have g: "requireJwt sample_verify (Some ''Basic abc'') = Inl bad_format" by simp
  have old: "bearer_parts ''Bearer old.demo.token''"
    and good: "bearer_parts ''Bearer good.demo.token''"
    by (simp_all add: bearer_parts_def)
  have e: "requireJwt sample_verify (Some ''Bearer old.demo.token'')
             = Inl (invalid_token ''jwt expired'')"
    using requireJwt_outcomes[of sample_verify "''Bearer old.demo.token''"] old
    by (simp add: sample_verify_def)
  have a: "requireJwt sample_verify (Some ''Bearer good.demo.token'')
             = Inr \<lparr>username = ''testuser'', role = ''student-admin''\<rparr>"
    using requireJwt_outcomes[of sample_verify "''Bearer good.demo.token''"] good
    by (simp add: sample_verify_def)
  from t g e a show ?thesis by blast
qed

theorem requireJwt_empty_header_counterexample:
  "Some '''' \<noteq> (None :: string option)
   \<and> \<not> bearer_parts ''''
   \<and> requireJwt sample_verify (Some '''') = Inl missing_header
   \<and> requireJwt sample_verify (Some '''') \<noteq> Inl bad_format"
  by (simp add: requireJwt_def bearer_parts_def missing_header_def bad_format_def)

text \<open>
  Claim C7. The cookie guard answers 401 with the missing-cookie error when the
  \<open>sessionId\<close> cookie is absent or is the empty string, 401 with the invalid-session
  error when the cookie is a non-empty string other than \<open>dummy-session-id\<close>, and
  otherwise hands on the identity \<open>cookieUser\<close> with role \<open>cookie-tester\<close>. Every
  accepted request carries exactly that cookie and gets exactly that identity; the
  guard reads nothing but the cookie.
\<close>

theorem requireCookieLogin_outcomes:
  "requireCookieLogin None = Inl missing_cookie
   \<and> requireCookieLogin (Some c) =
       (if c = [] then Inl missing_cookie
        else if c \<noteq> ''dummy-session-id'' then Inl invalid_session
        else Inr cookie_user)
   \<and> missing_cookie \<noteq> invalid_session
   \<and> fst missing_cookie = 401 \<and> fst invalid_session = 401
   \<and> (\<forall>u. requireCookieLogin x = Inr u \<longrightarrow>
         x = Some ''dummy-session-id'' \<and> u = cookie_user
         \<and> cookie_only x st =
             (st, 200,
              MessageUser ''This students route is protected by cookie-based auth.''
                cookie_user))
   \<and> (\<forall>r. requireCookieLogin x = Inl r \<longrightarrow> cookie_only x st = (st, r))"
  by (cases x)
     (auto simp: requireCookieLogin_def missing_cookie_def invalid_session_def cookie_user_def
        cookie_only_def protected_def split: if_splits)

theorem requireCookieLogin_outcomes_witness:
  "requireCookieLogin (Some ''dummy-session-id'') = Inr cookie_user
   \<and> cookie_only (Some ''dummy-session-id'') sample_store =
       (sample_store, 200,
        MessageUser ''This students route is protected by cookie-based auth.'' cookie_user)"
proof -
  note t = requireCookieLogin_outcomes[of "''dummy-session-id''" "Some ''dummy-session-id''"
      sample_store]
  from t have g: "requireCookieLogin (Some ''dummy-session-id'') = Inr cookie_user" by simp
  with t show ?thesis by blast
qed

theorem requireCookieLogin_empty_cookie_counterexample:
  "Some '''' \<noteq> (None :: string option)
   \<and> '''' \<noteq> ''dummy-session-id''
   \<and> requireCookieLogin (Some '''') = Inl missing_cookie
   \<and> requireCookieLogin (Some '''') \<noteq> Inl invalid_session"
  by (simp add: requireCookieLogin_def missing_cookie_def invalid_session_def)

section \<open>Lists\<close>

lemma findIndex_Some:
  "findIndex P xs = Some k \<Longrightarrow> k < length xs \<and> P (xs ! k) \<and> (\<forall>j<k. \<not> P (xs ! j))"
proof (induction xs arbitrary: k)
  case Nil
  then show ?case by simp
next
  case (Cons x xs)
  show ?case
  proof (cases "P x")
    case True
    with Cons.prems show ?thesis by simp
  next
    case False
    with Cons.prems obtain k' where k': "findIndex P xs = Some k'" "k = Suc k'" by auto
    from Cons.IH[OF k'(1)] False k'(2) show ?thesis by (auto simp: less_Suc_eq_0_disj)
  qed
qed

lemma findIndex_None: "findIndex P xs = None \<longleftrightarrow> (\<forall>x\<in>set xs. \<not> P x)"
  by (induction xs) auto

lemma findIndex_found: "x \<in> set xs \<Longrightarrow> P x \<Longrightarrow> \<exists>k. findIndex P xs = Some k"
  using findIndex_None[of P xs] by (cases "findIndex P xs") auto

lemma findIndex_update:
  "findIndex P xs = Some k \<Longrightarrow> P y \<Longrightarrow> findIndex P (xs[k := y]) = Some k"
proof (induction xs arbitrary: k)
  case Nil
  then show ?case by simp
next
  case (Cons x xs)
  show ?case
  proof (cases "P x")
    case True
    with Cons.prems show ?thesis by simp
  next
    case False
    with Cons.prems obtain k' where k': "findIndex P xs = Some k'" "k = Suc k'" by auto
    from Cons.IH[OF k'(1) Cons.prems(2)] False k'(2) show ?thesis by simp
  qed
qed

lemma find_update_other:
  "\<not> Q (xs ! k) \<Longrightarrow> \<not> Q y \<Longrightarrow> find Q (xs[k := y]) = find Q xs"
proof (induction xs arbitrary: k)
  case Nil
  then show ?case by simp
next
  case (Cons x xs)
  then show ?case by (cases k) auto
qed

lemma find_filter: "find Q xs = (case filter Q xs of [] \<Rightarrow> None | x # _ \<Rightarrow> Some x)"
  by (induction xs) auto

lemma foldl_max:
  "foldl (\<lambda>mx s. if f s > mx then f s else mx) (m::real) xs = Max (insert m (f ` set xs))"
proof (induction xs arbitrary: m)
  case Nil
  then show ?case by simp
next
  case (Cons x xs)
  have step: "(if f x > m then f x else m) = max m (f x)"
    by (simp add: max_def)
  have "Max (insert (max m (f x)) (f ` set xs)) = Max (insert m (insert (f x) (f ` set xs)))"
  proof (cases "f ` set xs = {}")
    case True
    then show ?thesis by simp
  next
    case False
    then show ?thesis by (simp add: max.assoc)
  qed
  with Cons.IH[of "max m (f x)"] step show ?case by simp
qed

section \<open>Addition of doubles\<close>

lemma round_even_ge_floor: "\<lfloor>q\<rfloor> \<le> round_even q"
  by (simp add: round_even_def Let_def)

lemma round_even_near: "q - 1 / 2 \<le> of_int (round_even q)"
proof -
  have h: "of_int \<lfloor>q\<rfloor> \<le> q \<and> q < of_int \<lfloor>q\<rfloor> + 1" by linarith
  show ?thesis
    apply (simp add: round_even_def Let_def)
    using h by (safe; linarith)
qed

lemma powi_nonpos: "e \<le> 0 \<Longrightarrow> (2::real) powi e = inverse (2 ^ nat (- e))"
  by (cases "e = 0") (simp_all add: power_int_def power_one_over inverse_eq_divide)

lemma round_even_of_int: "round_even (of_int k) = k"
  by (simp add: round_even_def)

lemma binade_bounds:
  assumes "1 \<le> y"
  shows "0 \<le> binade y" and "2 ^ nat (binade y) \<le> \<lfloor>y\<rfloor>" and "\<lfloor>y\<rfloor> < 2 ^ nat (binade y + 1)"
proof -
  from assms have p: "0 < \<lfloor>y\<rfloor>" by simp
  from p have "1 \<le> bitlen \<lfloor>y\<rfloor>" by (auto simp: bitlen_alt_def)
  with assms show "0 \<le> binade y" by (simp add: binade_def)
  from bitlen_bounds[OF p] assms
  show "2 ^ nat (binade y) \<le> \<lfloor>y\<rfloor>" and "\<lfloor>y\<rfloor> < 2 ^ nat (binade y + 1)"
    by (simp_all add: binade_def)
qed

lemma binade_le:
  assumes "1 \<le> y" and "\<lfloor>y\<rfloor> < 2 ^ n"
  shows "binade y < int n"
proof (rule ccontr)
  assume "\<not> binade y < int n"
  then have "n \<le> nat (binade y)" by simp
  then have "(2::int) ^ n \<le> 2 ^ nat (binade y)" by (simp add: power_increasing)
  with binade_bounds(2)[OF assms(1)] assms(2) show False by linarith
qed

lemma round_double_quotient:
  assumes "y \<noteq> 0" and "y / 2 powi (max (binade \<bar>y\<bar> - 52) (- 1074)) = of_int k"
  shows "round_double y = y"
proof -
  let ?e = "max (binade \<bar>y\<bar> - 52) (- 1074)"
  have nz: "(2::real) powi ?e \<noteq> 0" by simp
  have "round_double y = of_int k * 2 powi ?e"
    using assms by (simp add: round_double_def Let_def round_even_of_int)
  also have "\<dots> = y / 2 powi ?e * 2 powi ?e" using assms(2) by simp
  also have "\<dots> = y" using nz by simp
  finally show ?thesis .
qed

text \<open>An integer from 1 to \<open>2^53\<close> is a double.\<close>

lemma round_double_int:
  assumes "1 \<le> n" and "n \<le> 2 ^ 53"
  shows "round_double (of_int n) = of_int n"
proof -
  let ?y = "of_int n :: real"
  have y1: "1 \<le> ?y" using assms(1) by simp
  have fl: "\<lfloor>?y\<rfloor> = n" by simp
  let ?e = "max (binade \<bar>?y\<bar> - 52) (- 1074)"
  have ab: "\<bar>?y\<bar> = ?y" using assms(1) by simp
  from binade_bounds[OF y1] have b0: "0 \<le> binade ?y" and lo: "2 ^ nat (binade ?y) \<le> n"
    by (simp_all add: fl)
  have e: "?e = binade ?y - 52" using b0 by (simp add: ab)
  have "\<exists>k. ?y / 2 powi ?e = of_int k"
  proof (cases "binade ?y \<le> 52")
    case True
    then have "(2::real) powi ?e = inverse (2 ^ nat (52 - binade ?y))"
      unfolding e using powi_nonpos[of "binade ?y - 52"] by simp
    then have "?y / 2 powi ?e = of_int (n * 2 ^ nat (52 - binade ?y))"
      by (simp add: field_simps)
    then show ?thesis by blast
  next
    case False
    have "n < 2 ^ 54" using assms(2) by simp
    then have "binade ?y < 54" using binade_le[OF y1, of 54] by (simp add: fl)
    with False have b: "binade ?y = 53" by simp
    with lo have "2 ^ 53 \<le> n" by simp
    with assms(2) have n: "n = 2 ^ 53" by simp
    have "(2::real) powi ?e = 2" unfolding e b by simp
    then have "?y / 2 powi ?e = of_int (2 ^ 52)" by (simp add: n)
    then show ?thesis by blast
  qed
  then obtain k where "?y / 2 powi ?e = of_int k" ..
  moreover have "?y \<noteq> 0" using assms(1) by simp
  ultimately show ?thesis by (rule round_double_quotient[rotated])
qed

text \<open>Below \<open>2^53\<close> adding 1 gives a larger number.\<close>

lemma round_double_above:
  assumes "0 \<le> m" and "m < 2 ^ 53"
  shows "m < round_double (m + 1)"
proof -
  let ?y = "m + 1"
  have y1: "1 \<le> ?y" using assms(1) by simp
  have ab: "\<bar>?y\<bar> = ?y" using assms(1) by simp
  let ?e = "max (binade \<bar>?y\<bar> - 52) (- 1074)"
  from binade_bounds[OF y1] have b0: "0 \<le> binade ?y" and lo: "2 ^ nat (binade ?y) \<le> \<lfloor>?y\<rfloor>"
    by simp_all
  have e: "?e = binade ?y - 52" using b0 by (simp add: ab)
  have pos: "0 < (2::real) powi ?e" by simp
  have r: "round_double ?y = of_int (round_even (?y / 2 powi ?e)) * 2 powi ?e"
    using y1 by (simp add: round_double_def Let_def)
  have "\<lfloor>?y\<rfloor> < 2 ^ 53 + 1"
  proof -
    have "?y < 2 ^ 53 + 1" using assms(2) by simp
    then have "\<lfloor>?y\<rfloor> < 2 ^ 53 + 1" by (simp add: floor_less_iff)
    then show ?thesis .
  qed
  then have fl: "\<lfloor>?y\<rfloor> < 2 ^ 54" by simp
  have b54: "binade ?y < 54" using binade_le[OF y1, of 54] fl by simp
  show ?thesis
  proof (cases "binade ?y \<le> 52")
    case True
    then have le1: "(2::real) powi ?e \<le> 1"
      unfolding e using powi_nonpos[of "binade ?y - 52"]
      by (simp add: inverse_le_1_iff)
    have "?y / 2 powi ?e - 1 / 2 \<le> of_int (round_even (?y / 2 powi ?e))"
      by (rule round_even_near)
    then have "(?y / 2 powi ?e - 1 / 2) * 2 powi ?e \<le> round_double ?y"
      unfolding r using pos by (simp add: mult_right_mono)
    moreover have "(?y / 2 powi ?e - 1 / 2) * 2 powi ?e = ?y - 2 powi ?e / 2"
      using pos by (simp add: field_simps)
    ultimately have "?y - 2 powi ?e / 2 \<le> round_double ?y" by simp
    with le1 show ?thesis by linarith
  next
    case False
    with b54 have b: "binade ?y = 53" by simp
    have two: "(2::real) powi ?e = 2" unfolding e b by simp
    from lo b have "2 ^ 53 \<le> \<lfloor>?y\<rfloor>" by simp
    then have "(2::real) ^ 53 \<le> ?y" by (simp add: le_floor_iff)
    then have "(2::real) ^ 52 \<le> ?y / 2" by simp
    then have "2 ^ 52 \<le> \<lfloor>?y / 2\<rfloor>" by (simp add: le_floor_iff)
    with round_even_ge_floor[of "?y / 2"] have "2 ^ 52 \<le> round_even (?y / 2)" by linarith
    then have "(2::real) ^ 52 \<le> of_int (round_even (?y / 2))"
      by (metis of_int_le_iff of_int_numeral of_int_power)
    then have "(2::real) ^ 53 \<le> round_double ?y" unfolding r two by simp
    with assms(2) show ?thesis by linarith
  qed
qed

section \<open>The lowering of the examples\<close>

lemma letters_facts:
  "distinct upper_letters" "distinct lower_letters"
  "set upper_letters \<inter> set lower_letters = {}" "length upper_letters = length lower_letters"
  by (simp_all add: upper_letters_def lower_letters_def)

lemma letter_pair_iff:
  "map_of (zip upper_letters lower_letters) c = Some d
     \<longleftrightarrow> (c, d) \<in> set (zip upper_letters lower_letters)"
  using letters_facts(1,4) by (intro map_of_eq_Some_iff) simp

lemma letter_pair_sides:
  "(c, d) \<in> set (zip upper_letters lower_letters) \<Longrightarrow>
   c \<in> set upper_letters \<and> d \<in> set lower_letters"
  by (auto dest: set_zip_leftD set_zip_rightD)

lemma letter_pair_inj:
  assumes "(c, e) \<in> set (zip upper_letters lower_letters)"
    and "(d, e) \<in> set (zip upper_letters lower_letters)"
  shows "c = d"
proof -
  have "distinct (map snd (zip upper_letters lower_letters))"
    using letters_facts(2,4) by simp
  then have "inj_on snd (set (zip upper_letters lower_letters))"
    by (simp add: distinct_map)
  from inj_onD[OF this _ assms] show ?thesis by simp
qed

lemma lower_char_eq_iff: "lower_char c = lower_char d \<longleftrightarrow> same_letter c d"
proof (cases "map_of (zip upper_letters lower_letters) c";
       cases "map_of (zip upper_letters lower_letters) d")
  fix x y
  assume c: "map_of (zip upper_letters lower_letters) c = Some x"
    and d: "map_of (zip upper_letters lower_letters) d = Some y"
  from c d have p: "(c, x) \<in> set (zip upper_letters lower_letters)"
    "(d, y) \<in> set (zip upper_letters lower_letters)"
    by (simp_all add: letter_pair_iff)
  have n: "(c, d) \<notin> set (zip upper_letters lower_letters)"
    "(d, c) \<notin> set (zip upper_letters lower_letters)"
    using letter_pair_sides[OF p(1)] letter_pair_sides[OF p(2)] letters_facts(3)
    by (auto dest: letter_pair_sides)
  show ?thesis
    using c d n letter_pair_inj[OF p(1), of d] p(2)
    by (auto simp: lower_char_def same_letter_def)
next
  fix x
  assume c: "map_of (zip upper_letters lower_letters) c = Some x"
    and d: "map_of (zip upper_letters lower_letters) d = None"
  from d have nd: "\<And>z. (d, z) \<notin> set (zip upper_letters lower_letters)"
    by (metis letter_pair_iff option.distinct(1))
  from c show ?thesis
    using d nd by (auto simp: lower_char_def same_letter_def letter_pair_iff[symmetric])
next
  fix y
  assume c: "map_of (zip upper_letters lower_letters) c = None"
    and d: "map_of (zip upper_letters lower_letters) d = Some y"
  from c have nc: "\<And>z. (c, z) \<notin> set (zip upper_letters lower_letters)"
    by (metis letter_pair_iff option.distinct(1))
  from d show ?thesis
    using c nc by (auto simp: lower_char_def same_letter_def letter_pair_iff[symmetric])
next
  assume c: "map_of (zip upper_letters lower_letters) c = None"
    and d: "map_of (zip upper_letters lower_letters) d = None"
  from c have nc: "\<And>z. (c, z) \<notin> set (zip upper_letters lower_letters)"
    by (metis letter_pair_iff option.distinct(1))
  from d have nd: "\<And>z. (d, z) \<notin> set (zip upper_letters lower_letters)"
    by (metis letter_pair_iff option.distinct(1))
  show ?thesis
    using c d nc nd by (auto simp: lower_char_def same_letter_def)
qed

text \<open>The lowering of the examples decides equality up to case.\<close>

lemma lower_ascii_decides: "decides lower_ascii same_up_to_case"
proof -
  have "(lower_ascii a = lower_ascii b) = same_up_to_case a b" for a b
  proof -
    have "(map lower_char a = map lower_char b)
          = list_all2 (\<lambda>c d. lower_char c = lower_char d) a b"
      by (simp add: list.rel_eq[symmetric] list.rel_map del: list.rel_eq)
    then show ?thesis
      by (simp add: lower_ascii_def same_up_to_case_def lower_char_eq_iff)
  qed
  then show ?thesis by (simp add: decides_def)
qed

lemma round_double_2_53_plus_1: "round_double 9007199254740993 = 9007199254740992"
  by code_simp

section \<open>The handlers, case by case\<close>

lemma validate_shape:
  "validate b = [] \<Longrightarrow>
   \<exists>n a e v. b_name b = JStr n \<and> n \<noteq> [] \<and> b_age b = JNum a \<and> 0 < a \<and>
             b_email b = JStr e \<and> e \<noteq> [] \<and> b_isActive b = JBool v"
  unfolding validate_Nil_iff nonempty_text_def positive_number_def is_boolean_def
  by (cases "b_name b"; cases "b_age b"; cases "b_email b"; cases "b_isActive b") simp_all

lemma store_eq: "(st::store)\<lparr>students := S, json_file := F\<rparr> = \<lparr>students = S, json_file = F\<rparr>"
  by simp

lemma create_conflict:
  "validate b = [] \<Longrightarrow>
   find (\<lambda>s. same_email lc (email s) (string_of (b_email b))) (students st) = Some x \<Longrightarrow>
   create lc b st = (st, 409, ErrorStudent ''A student with this email already exists'' x)"
  by (simp add: create_def same_email_def)

lemma create_fresh:
  "validate b = [] \<Longrightarrow>
   find (\<lambda>s. same_email lc (email s) (string_of (b_email b))) (students st) = None \<Longrightarrow>
   create lc b st =
     (let new = \<lparr>sid = round_double (Max (insert 0 (sid ` set (students st))) + 1),
                 name = string_of (b_name b), age = number_of (b_age b),
                 email = string_of (b_email b), isActive = bool_of (b_isActive b)\<rparr>
      in (\<lparr>students = students st @ [new], json_file = students st @ [new]\<rparr>,
          201, MessageStudent ''Student created'' new))"
  by (simp add: create_def same_email_def Let_def saveStudents_def foldl_max plus_double_def)

lemma create_status_409:
  "status (create lc b st) = 409 \<longleftrightarrow>
     validate b = [] \<and> (\<exists>s\<in>set (students st). same_email lc (email s) (string_of (b_email b)))"
proof (cases "validate b = []")
  case False
  then show ?thesis by (simp add: create_invalid status_def)
next
  case True
  show ?thesis
  proof (cases "find (\<lambda>s. same_email lc (email s) (string_of (b_email b))) (students st)")
    case None
    with True show ?thesis
      by (auto simp: create_fresh status_def Let_def find_None_iff)
  next
    case (Some x)
    with True show ?thesis
      by (auto simp: create_conflict status_def find_Some_iff)
  qed
qed

lemma replace_conflict:
  "findIndex (\<lambda>s. sid s = i) (students st) = Some k \<Longrightarrow> validate b = [] \<Longrightarrow>
   find (\<lambda>s. same_email lc (email s) (string_of (b_email b)) \<and> sid s \<noteq> i) (students st) = Some x \<Longrightarrow>
   replace lc (IdNum i) b st =
     (st, 409, ErrorStudent ''Another student with this email already exists'' x)"
  by (simp add: replace_def same_email_def)

lemma replace_fresh:
  "findIndex (\<lambda>s. sid s = i) (students st) = Some k \<Longrightarrow> validate b = [] \<Longrightarrow>
   find (\<lambda>s. same_email lc (email s) (string_of (b_email b)) \<and> sid s \<noteq> i) (students st) = None \<Longrightarrow>
   replace lc (IdNum i) b st =
     (let u = \<lparr>sid = i, name = string_of (b_name b), age = number_of (b_age b),
               email = string_of (b_email b), isActive = bool_of (b_isActive b)\<rparr>
      in (\<lparr>students = (students st)[k := u], json_file = (students st)[k := u]\<rparr>,
          200, MessageStudent ''Student updated'' u))"
  by (simp add: replace_def same_email_def Let_def saveStudents_def)

lemma replace_NaN: "replace lc NaN b st = (st, 400, Error ''Invalid ID. Must be a number.'')"
  by (simp add: replace_def)

lemma replace_missing:
  "findIndex (\<lambda>s. sid s = i) (students st) = None \<Longrightarrow>
   replace lc (IdNum i) b st = (st, 404, ErrorNotFound i)"
  by (simp add: replace_def)

lemma replace_status_409:
  "status (replace lc p b st) = 409 \<longleftrightarrow>
     (\<exists>i. p = IdNum i \<and> i \<in> sid ` set (students st) \<and> validate b = [] \<and>
          (\<exists>s\<in>set (students st). same_email lc (email s) (string_of (b_email b)) \<and> sid s \<noteq> i))"
proof (cases p)
  case NaN
  then show ?thesis by (simp add: replace_NaN status_def)
next
  case (IdNum i)
  show ?thesis
  proof (cases "findIndex (\<lambda>s. sid s = i) (students st)")
    case None
    then have "i \<notin> sid ` set (students st)" by (auto simp: findIndex_None)
    with None IdNum show ?thesis by (simp add: replace_missing status_def)
  next
    case (Some k)
    from findIndex_Some[OF Some] have mem: "i \<in> sid ` set (students st)"
      by (metis image_eqI nth_mem)
    show ?thesis
    proof (cases "validate b = []")
      case False
      with Some IdNum show ?thesis by (simp add: replace_invalid status_def)
    next
      case True
      show ?thesis
      proof (cases "find (\<lambda>s. same_email lc (email s) (string_of (b_email b)) \<and> sid s \<noteq> i)
                      (students st)")
        case None
        with True Some IdNum mem show ?thesis
          by (auto simp: replace_fresh status_def Let_def find_None_iff)
      next
        case (Some x)
        with True \<open>findIndex (\<lambda>s. sid s = i) (students st) = Some k\<close> IdNum mem show ?thesis
          by (auto simp: replace_conflict status_def find_Some_iff)
      qed
    qed
  qed
qed

section \<open>PATCH, block by block\<close>

lemma patch_name_eq:
  "patch_name k v st =
     (if text_fails v then Inl invalid_name
      else Inr (st\<lparr>students := (students st)[k := apply_name v (students st ! k)]\<rparr>))"
  by (cases v) (simp_all add: patch_name_def text_fails_def is_text_def apply_name_def
      invalid_name_def)

lemma patch_age_eq:
  "patch_age k v st =
     (if age_fails v then Inl invalid_age
      else Inr (st\<lparr>students := (students st)[k := apply_age v (students st ! k)]\<rparr>))"
  by (cases v) (simp_all add: patch_age_def age_fails_def positive_number_def apply_age_def
      invalid_age_def not_less)

lemma patch_isActive_eq:
  "patch_isActive k v st =
     (if isActive_fails v then Inl invalid_isActive
      else Inr (st\<lparr>students := (students st)[k := apply_isActive v (students st ! k)]\<rparr>))"
  by (cases v) (simp_all add: patch_isActive_def isActive_fails_def is_boolean_def
      apply_isActive_def invalid_isActive_def)

lemma patch_email_eq:
  "patch_email lc i k v st =
     (if text_fails v then Inl invalid_email
      else if v = JUndefined then Inr st
      else (case others_with_email lc i (string_of v) (students st) of
              x # _ \<Rightarrow>
                Inl (409, ErrorStudent ''Another student with this email already exists'' x)
            | [] \<Rightarrow>
                Inr (st\<lparr>students := (students st)[k := apply_email v (students st ! k)]\<rparr>)))"
  by (cases v) (simp_all add: patch_email_def text_fails_def is_text_def apply_email_def
      invalid_email_def others_with_email_def same_email_def find_filter split: list.splits)

lemma others_update:
  "sid (S ! k) = i \<Longrightarrow> sid t = i \<Longrightarrow>
   others_with_email lc i e (S[k := t]) = others_with_email lc i e S"
proof (induction S arbitrary: k)
  case Nil
  then show ?case by simp
next
  case (Cons x S)
  then show ?case by (cases k) (auto simp: others_with_email_def)
qed

lemma sid_apply [simp]:
  "sid (apply_name v s) = sid s" "sid (apply_age v s) = sid s"
  "sid (apply_email v s) = sid s" "sid (apply_isActive v s) = sid s"
  by (simp_all add: apply_name_def apply_age_def apply_email_def apply_isActive_def)

lemma email_apply [simp]:
  "email (apply_name v s) = email s" "email (apply_age v s) = email s"
  "email (apply_isActive v s) = email s"
  by (simp_all add: apply_name_def apply_age_def apply_isActive_def)

lemma patch_NaN: "patch lc NaN b st = (st, 400, Error ''Invalid ID. Must be a number.'')"
  by (simp add: patch_def)

lemma patch_missing:
  "findIndex (\<lambda>s. sid s = i) (students st) = None \<Longrightarrow>
   patch lc (IdNum i) b st = (st, 404, ErrorNotFound i)"
  by (simp add: patch_def)

text \<open>
  What PATCH does once the record has been found at index \<open>k\<close>: the record after the
  name block is \<open>t1\<close>, after the age block \<open>t2\<close>, after the email block \<open>t3\<close>, after
  the isActive block \<open>t4\<close>; each answer comes with the array as the blocks before it
  left it.
\<close>

lemma patch_found:
  assumes k: "findIndex (\<lambda>s. sid s = i) (students st) = Some k"
  shows "patch lc (IdNum i) b st =
     (let S = students st;
          t1 = apply_name (b_name b) (S ! k);
          t2 = apply_age (b_age b) t1;
          t3 = apply_email (b_email b) t2;
          t4 = apply_isActive (b_isActive b) t3
      in if text_fails (b_name b) then (st, invalid_name)
         else if age_fails (b_age b) then (st\<lparr>students := S[k := t1]\<rparr>, invalid_age)
         else if text_fails (b_email b) then (st\<lparr>students := S[k := t2]\<rparr>, invalid_email)
         else if b_email b \<noteq> JUndefined
                 \<and> others_with_email lc i (string_of (b_email b)) S \<noteq> []
         then (st\<lparr>students := S[k := t2]\<rparr>, 409,
               ErrorStudent ''Another student with this email already exists''
                 (hd (others_with_email lc i (string_of (b_email b)) S)))
         else if isActive_fails (b_isActive b)
         then (st\<lparr>students := S[k := t3]\<rparr>, invalid_isActive)
         else (\<lparr>students = S[k := t4], json_file = S[k := t4]\<rparr>, 200,
               MessageStudent ''Student partially updated'' t4))"
proof -
  from findIndex_Some[OF k] have len: "k < length (students st)"
    and idk: "sid (students st ! k) = i" by auto
  have oth: "\<And>t e. sid t = i \<Longrightarrow>
      others_with_email lc i e ((students st)[k := t]) = others_with_email lc i e (students st)"
    using others_update[OF idk] by simp
  show ?thesis
    unfolding patch_def using k len idk
    by (simp add: patch_name_eq patch_age_eq patch_email_eq patch_isActive_eq Let_def oth
        saveStudents_def apply_email_def split: list.splits)
qed

section \<open>The invariants\<close>

lemma update_keeps_ids:
  "k < length S \<Longrightarrow> sid t = sid (S ! k) \<Longrightarrow> map sid (S[k := t]) = map sid S"
  by (simp add: map_update list_update_same_conv)

lemma update_keeps_emails:
  "k < length S \<Longrightarrow> same_email lc (email t) (email (S ! k)) \<Longrightarrow>
   map (\<lambda>s. lc (email s)) (S[k := t]) = map (\<lambda>s. lc (email s)) S"
  by (simp add: map_update list_update_same_conv same_email_def)

lemma update_fresh_email:
  assumes len: "k < length S" and idk: "sid (S ! k) = i"
    and no: "others_with_email lc i (email t) S = []"
    and ids: "ids_unique S" and ems: "emails_distinct lc S"
  shows "emails_distinct lc (S[k := t])"
proof -
  let ?f = "\<lambda>s. lc (email s)"
  have "?f t \<notin> set (map ?f S) - {map ?f S ! k}"
  proof
    assume "?f t \<in> set (map ?f S) - {map ?f S ! k}"
    then obtain s where s: "s \<in> set S" "?f s = ?f t" "?f s \<noteq> ?f (S ! k)"
      using len by auto
    from no s(1,2) have "sid s = i"
      by (auto simp: others_with_email_def same_email_def filter_empty_conv)
    moreover from ids have "inj_on sid (set S)"
      by (simp add: ids_unique_def distinct_map)
    ultimately have "s = S ! k"
      using idk s(1) len by (auto dest: inj_onD)
    with s(3) show False by simp
  qed
  with ems have "distinct ((map ?f S)[k := ?f t])"
    unfolding emails_distinct_def by (rule distinct_list_update)
  then show ?thesis by (simp add: emails_distinct_def map_update)
qed

lemma update_keeps_invariants:
  assumes "k < length (students st)" and "sid (students st ! k) = i" and "sid t = i"
    and "same_email lc (email t) (email (students st ! k))
         \<or> others_with_email lc i (email t) (students st) = []"
    and "store_ok lc st"
  shows "store_ok lc (st\<lparr>students := (students st)[k := t]\<rparr>)"
  using assms update_keeps_ids[of k "students st" t]
    update_keeps_emails[where k = k and S = "students st" and t = t and lc = lc]
    update_fresh_email[where k = k and S = "students st" and i = i and t = t and lc = lc]
  by (auto simp: store_ok_def ids_unique_def emails_distinct_def)

lemma saved_ok: "store_ok lc (st\<lparr>json_file := F\<rparr>) = store_ok lc st"
  by (simp add: store_ok_def)

lemma create_keeps_emails:
  assumes ok: "emails_distinct lc (students st)"
  shows "emails_distinct lc (students (fst (create lc b st)))"
proof (cases "validate b = []")
  case False
  with ok show ?thesis by (simp add: create_invalid)
next
  case True
  show ?thesis
  proof (cases "find (\<lambda>s. same_email lc (email s) (string_of (b_email b))) (students st)")
    case (Some x)
    with True ok show ?thesis by (simp add: create_conflict)
  next
    case None
    from None have em: "lc (string_of (b_email b))
        \<notin> (\<lambda>s. lc (email s)) ` set (students st)"
      by (auto simp: find_None_iff same_email_def)
    from ok em show ?thesis
      by (simp add: create_fresh[OF True None] Let_def emails_distinct_def)
  qed
qed

lemma create_keeps_ids:
  assumes ok: "ids_unique (students st)" and small: "\<forall>s\<in>set (students st). sid s < 2 ^ 53"
  shows "ids_unique (students (fst (create lc b st)))"
proof (cases "validate b = []")
  case False
  with ok show ?thesis by (simp add: create_invalid)
next
  case True
  show ?thesis
  proof (cases "find (\<lambda>s. same_email lc (email s) (string_of (b_email b))) (students st)")
    case (Some x)
    with True ok show ?thesis by (simp add: create_conflict)
  next
    case None
    let ?m = "Max (insert 0 (sid ` set (students st)))"
    have m0: "0 \<le> ?m" by simp
    have "?m \<in> insert 0 (sid ` set (students st))" by (rule Max_in) auto
    with small have "?m < 2 ^ 53" by auto
    from round_double_above[OF m0 this] have above: "?m < round_double (?m + 1)" .
    have "\<forall>s\<in>set (students st). sid s \<le> ?m" by simp
    with above have id: "round_double (?m + 1) \<notin> sid ` set (students st)" by fastforce
    from ok id show ?thesis
      by (simp add: create_fresh[OF True None] Let_def ids_unique_def)
  qed
qed

lemma replace_keeps_invariants:
  assumes ok: "store_ok lc st"
  shows "store_ok lc (fst (replace lc p b st))"
proof (cases p)
  case NaN
  with ok show ?thesis by (simp add: replace_NaN)
next
  case (IdNum i)
  show ?thesis
  proof (cases "findIndex (\<lambda>s. sid s = i) (students st)")
    case None
    with ok IdNum show ?thesis by (simp add: replace_missing)
  next
    case (Some k)
    note k = this
    from findIndex_Some[OF k] have len: "k < length (students st)"
      and idk: "sid (students st ! k) = i" by auto
    show ?thesis
    proof (cases "validate b = []")
      case False
      with ok IdNum k show ?thesis by (simp add: replace_invalid)
    next
      case True
      show ?thesis
      proof (cases "find (\<lambda>s. same_email lc (email s) (string_of (b_email b)) \<and> sid s \<noteq> i)
                      (students st)")
        case (Some x)
        with True ok IdNum k show ?thesis by (simp add: replace_conflict)
      next
        case None
        let ?u = "\<lparr>sid = i, name = string_of (b_name b), age = number_of (b_age b),
                    email = string_of (b_email b), isActive = bool_of (b_isActive b)\<rparr>"
        from None have "others_with_email lc i (email ?u) (students st) = []"
          by (auto simp: find_None_iff others_with_email_def filter_empty_conv)
        with update_keeps_invariants[OF len idk _ _ ok, where t = ?u]
        have "store_ok lc (st\<lparr>students := (students st)[k := ?u]\<rparr>)" by simp
        then show ?thesis
          using IdNum by (simp add: replace_fresh[OF k True None] Let_def store_ok_def)
      qed
    qed
  qed
qed

lemma delete_NaN: "delete NaN st = (st, 400, Error ''Invalid ID. Must be a number.'')"
  by (simp add: delete_def)

lemma delete_missing:
  "findIndex (\<lambda>s. sid s = i) (students st) = None \<Longrightarrow>
   delete (IdNum i) st = (st, 404, ErrorNotFound i)"
  by (simp add: delete_def)

lemma delete_found:
  "findIndex (\<lambda>s. sid s = i) (students st) = Some k \<Longrightarrow>
   delete (IdNum i) st =
     (\<lparr>students = take k (students st) @ drop (Suc k) (students st),
       json_file = take k (students st) @ drop (Suc k) (students st)\<rparr>,
      200, MessageStudent ''Student deleted'' (students st ! k))"
  by (simp add: delete_def Let_def saveStudents_def)

lemma distinct_splice: "distinct xs \<Longrightarrow> distinct (take k xs @ drop (Suc k) xs)"
  using set_take_disj_set_drop_if_distinct[of xs k "Suc k"] by simp

lemma distinct_map_splice:
  "distinct (map f xs) \<Longrightarrow> distinct (map f (take k xs @ drop (Suc k) xs))"
  using distinct_splice[of "map f xs" k] by (simp add: take_map drop_map)

lemma delete_keeps_invariants:
  assumes ok: "store_ok lc st"
  shows "store_ok lc (fst (delete p st))"
proof (cases p)
  case NaN
  with ok show ?thesis by (simp add: delete_NaN)
next
  case (IdNum i)
  show ?thesis
  proof (cases "findIndex (\<lambda>s. sid s = i) (students st)")
    case None
    with ok IdNum show ?thesis by (simp add: delete_missing)
  next
    case (Some k)
    from ok show ?thesis
      using IdNum distinct_map_splice[of sid "students st" k]
        distinct_map_splice[of "\<lambda>s. lc (email s)" "students st" k]
      by (simp add: delete_found[OF Some] store_ok_def ids_unique_def emails_distinct_def
          del: map_append)
  qed
qed

lemma patch_keeps_invariants:
  assumes ok: "store_ok lc st"
  shows "store_ok lc (fst (patch lc p b st))"
proof (cases p)
  case NaN
  with ok show ?thesis by (simp add: patch_NaN)
next
  case (IdNum i)
  show ?thesis
  proof (cases "findIndex (\<lambda>s. sid s = i) (students st)")
    case None
    with ok IdNum show ?thesis by (simp add: patch_missing)
  next
    case (Some k)
    from findIndex_Some[OF Some] have len: "k < length (students st)"
      and idk: "sid (students st ! k) = i" by auto
    let ?S = "students st"
    let ?t1 = "apply_name (b_name b) (?S ! k)"
    let ?t2 = "apply_age (b_age b) ?t1"
    let ?t3 = "apply_email (b_email b) ?t2"
    let ?t4 = "apply_isActive (b_isActive b) ?t3"
    have same: "\<And>t. sid t = i \<Longrightarrow> email t = email (?S ! k) \<Longrightarrow>
        store_ok lc (st\<lparr>students := ?S[k := t]\<rparr>)"
      using update_keeps_invariants[OF len idk _ _ ok] by (simp add: same_email_def)
    have fresh: "\<And>t. sid t = i \<Longrightarrow> others_with_email lc i (email t) ?S = [] \<Longrightarrow>
        store_ok lc (st\<lparr>students := ?S[k := t]\<rparr>)"
      using update_keeps_invariants[OF len idk _ _ ok] by simp
    have o1: "store_ok lc (st\<lparr>students := ?S[k := ?t1]\<rparr>)"
      and o2: "store_ok lc (st\<lparr>students := ?S[k := ?t2]\<rparr>)"
      using same idk by simp_all
    have o3: "store_ok lc (st\<lparr>students := ?S[k := ?t3]\<rparr>)"
      if "b_email b = JUndefined \<or> others_with_email lc i (string_of (b_email b)) ?S = []"
      using that same[of ?t3] fresh[of ?t3] idk by (auto simp: apply_email_def)
    have o4: "store_ok lc (st\<lparr>students := ?S[k := ?t4]\<rparr>)"
      if "b_email b = JUndefined \<or> others_with_email lc i (string_of (b_email b)) ?S = []"
      using that same[of ?t4] fresh[of ?t4] idk by (auto simp: apply_email_def)
    have o4': "store_ok lc \<lparr>students = ?S[k := ?t4], json_file = ?S[k := ?t4]\<rparr>"
      if "b_email b = JUndefined \<or> others_with_email lc i (string_of (b_email b)) ?S = []"
      using o4[OF that] by (simp add: store_ok_def)
    show ?thesis
      using IdNum ok o1 o2 o3 o4'
      by (auto simp: patch_found[OF Some] Let_def)
  qed
qed

section \<open>The claims about the handlers\<close>

lemma round_double_1: "round_double 1 = 1"
  using round_double_int[of 1] by simp

text \<open>
  Claim C1. A create that passes validation and meets no record with the same
  lower-case email answers 201 with a new record, and appends that record to the array.
  Its id is the sum, in doubles, of 1 and the maximum of 0 and the ids of the store.
  When that maximum is an integer below \<open>2^53\<close> the sum is exact, one more than the
  maximum: the id is 1 when the store is empty, and one more than the maximum id of the
  store when the store holds an id that is not negative and its maximum id is an integer
  below \<open>2^53\<close>. The name, age, email and isActive of the record are the values of the
  payload.
\<close>

theorem create_assigns_next_id:
  assumes "validate b = []"
    and "\<forall>s\<in>set (students st). lc (email s) \<noteq> lc (string_of (b_email b))"
  shows "\<exists>new. students (fst (create lc b st)) = students st @ [new]
         \<and> snd (create lc b st) = (201, MessageStudent ''Student created'' new)
         \<and> sid new = round_double (Max (insert 0 (sid ` set (students st))) + 1)
         \<and> (Max (insert 0 (sid ` set (students st))) \<in> \<int>
              \<and> Max (insert 0 (sid ` set (students st))) < 2 ^ 53 \<longrightarrow>
                sid new = Max (insert 0 (sid ` set (students st))) + 1)
         \<and> (students st = [] \<longrightarrow> sid new = 1)
         \<and> ((\<exists>s\<in>set (students st). 0 \<le> sid s)
              \<and> Max (sid ` set (students st)) \<in> \<int>
              \<and> Max (sid ` set (students st)) < 2 ^ 53 \<longrightarrow>
                sid new = Max (sid ` set (students st)) + 1)
         \<and> b_name b = JStr (name new) \<and> b_age b = JNum (age new)
         \<and> b_email b = JStr (email new) \<and> b_isActive b = JBool (isActive new)"
proof -
  let ?S = "students st"
  let ?m = "Max (insert 0 (sid ` set ?S))"
  define new where "new = \<lparr>sid = round_double (?m + 1),
                name = string_of (b_name b), age = number_of (b_age b),
                email = string_of (b_email b), isActive = bool_of (b_isActive b)\<rparr>"
  from assms(2) have none:
    "find (\<lambda>s. same_email lc (email s) (string_of (b_email b))) ?S = None"
    by (simp add: find_None_iff same_email_def)
  have c1: "students (fst (create lc b st)) = ?S @ [new]"
    and c2: "snd (create lc b st) = (201, MessageStudent ''Student created'' new)"
    using create_fresh[OF assms(1) none] by (simp_all add: Let_def new_def)
  have i1: "sid new = round_double (?m + 1)" by (simp add: new_def)
  have m0: "0 \<le> ?m" by simp
  have exact: "round_double (x + 1) = x + 1" if "0 \<le> x" and "x \<in> \<int>" and "x < 2 ^ 53"
    for x :: real
  proof -
    from that(2) obtain n where n: "x = of_int n" by (auto elim: Ints_cases)
    with that(1,3) have "0 \<le> n" and "n < 2 ^ 53" by simp_all
    then have "1 \<le> n + 1" and "n + 1 \<le> 2 ^ 53" by simp_all
    from round_double_int[OF this] n show ?thesis by simp
  qed
  have i2: "?m \<in> \<int> \<and> ?m < 2 ^ 53 \<longrightarrow> sid new = ?m + 1"
    unfolding i1 using exact[OF m0] by blast
  have i3: "?S = [] \<longrightarrow> sid new = 1"
    unfolding i1 by (simp add: round_double_1)
  have m: "?m = Max (sid ` set ?S)" if "\<exists>s\<in>set ?S. 0 \<le> sid s"
  proof -
    from that obtain s where s: "s \<in> set ?S" "0 \<le> sid s" by blast
    then have ne: "sid ` set ?S \<noteq> {}" by auto
    have "sid s \<le> Max (sid ` set ?S)" using s(1) by simp
    with s(2) have "0 \<le> Max (sid ` set ?S)" by linarith
    with ne show ?thesis by (simp add: max_def)
  qed
  have i4: "(\<exists>s\<in>set ?S. 0 \<le> sid s) \<and> Max (sid ` set ?S) \<in> \<int>
              \<and> Max (sid ` set ?S) < 2 ^ 53 \<longrightarrow> sid new = Max (sid ` set ?S) + 1"
  proof (intro impI, elim conjE)
    assume a: "\<exists>s\<in>set ?S. 0 \<le> sid s" "Max (sid ` set ?S) \<in> \<int>"
      "Max (sid ` set ?S) < 2 ^ 53"
    from m[OF a(1)] have eq: "?m = Max (sid ` set ?S)" .
    from m0 have "0 \<le> Max (sid ` set ?S)" unfolding eq .
    from exact[OF this a(2,3)] show "sid new = Max (sid ` set ?S) + 1"
      unfolding i1 eq .
  qed
  from validate_shape[OF assms(1)] obtain n a e v where
    "b_name b = JStr n" "b_age b = JNum a" "b_email b = JStr e" "b_isActive b = JBool v"
    by blast
  then have f: "b_name b = JStr (name new)" "b_age b = JNum (age new)"
    "b_email b = JStr (email new)" "b_isActive b = JBool (isActive new)"
    by (simp_all add: new_def)
  show ?thesis
    by (intro exI[of _ new] conjI) (rule c1 c2 i1 i2 i3 i4 f)+
qed

theorem create_assigns_next_id_witness:
  "students (fst (create lower_ascii david sample_store)) =
      sample_students @
        [\<lparr>sid = 4, name = ''David Lee'', age = 21, email = ''david@example.com'',
          isActive = True\<rparr>]
   \<and> snd (create lower_ascii david sample_store) =
      (201,
       MessageStudent ''Student created''
         \<lparr>sid = 4, name = ''David Lee'', age = 21, email = ''david@example.com'',
           isActive = True\<rparr>)"
proof -
  have v: "validate david = []"
    by (simp add: validate_def david_def)
  have e: "\<forall>s\<in>set (students sample_store).
             lower_ascii (email s) \<noteq> lower_ascii (string_of (b_email david))"
    by (simp add: sample_store_def sample_students_def david_def
        lower_ascii_def lower_char_def upper_letters_def lower_letters_def)
  have mx: "Max (insert 0 (sid ` set (students sample_store))) = 3"
    by (simp add: sample_store_def sample_students_def)
  from create_assigns_next_id[OF v e] obtain new where
    n: "students (fst (create lower_ascii david sample_store))
          = students sample_store @ [new]"
    "snd (create lower_ascii david sample_store)
          = (201, MessageStudent ''Student created'' new)"
    "Max (insert 0 (sid ` set (students sample_store))) \<in> \<int>
       \<and> Max (insert 0 (sid ` set (students sample_store))) < 2 ^ 53 \<longrightarrow>
     sid new = Max (insert 0 (sid ` set (students sample_store))) + 1"
    "b_name david = JStr (name new)" "b_age david = JNum (age new)"
    "b_email david = JStr (email new)" "b_isActive david = JBool (isActive new)"
    by blast
  have "sid new = 4"
    using n(3) unfolding mx by simp
  with n(4-7) have "new = \<lparr>sid = 4, name = ''David Lee'', age = 21,
      email = ''david@example.com'', isActive = True\<rparr>"
    by (cases new) (simp add: david_def)
  with n(1,2) show ?thesis by (simp add: sample_store_def)
qed

theorem create_next_id_counterexample:
  "validate david = []
   \<and> snd (create lower_ascii david below_zero_store) =
       (201, MessageStudent ''Student created''
          \<lparr>sid = 1, name = ''David Lee'', age = 21, email = ''david@example.com'',
            isActive = True\<rparr>)
   \<and> students below_zero_store \<noteq> []
   \<and> (1::real) \<noteq> Max (sid ` set (students below_zero_store)) + 1
   \<and> snd (create lower_ascii david big_id_store) =
       (201, MessageStudent ''Student created''
          \<lparr>sid = 9007199254740992, name = ''David Lee'', age = 21,
            email = ''david@example.com'', isActive = True\<rparr>)
   \<and> (9007199254740992::real) \<noteq> Max (sid ` set (students big_id_store)) + 1"
  by (simp add: validate_def david_def create_def below_zero_store_def big_id_store_def
      lower_ascii_def lower_char_def upper_letters_def lower_letters_def
      saveStudents_def Let_def plus_double_def round_double_1 round_double_2_53_plus_1)

lemma emails_unique_distinct:
  "decides lc ci \<Longrightarrow> emails_unique ci S = emails_distinct lc S"
  by (induction S) (auto simp: emails_distinct_def decides_def)

text \<open>
  Claim C2. Take any lowering and the relation it decides as equality up to case, and a
  store in which no two records have emails equal up to case and no two records have the
  same id. Replace, patch and delete each leave a store with both properties, whatever
  they answer. Create leaves a store in which no two records have emails equal up to
  case, whatever it answers, and in which no two records have the same id when every id
  of the store is below \<open>2^53\<close>.
\<close>

theorem invariants_preserved:
  assumes "decides lc ci"
    and "emails_unique ci (students st)" and "ids_unique (students st)"
  shows "emails_unique ci (students (fst (replace lc p b st)))
       \<and> ids_unique (students (fst (replace lc p b st)))
       \<and> emails_unique ci (students (fst (patch lc p b st)))
       \<and> ids_unique (students (fst (patch lc p b st)))
       \<and> emails_unique ci (students (fst (delete p st)))
       \<and> ids_unique (students (fst (delete p st)))
       \<and> emails_unique ci (students (fst (create lc b st)))
       \<and> ((\<forall>s\<in>set (students st). sid s < 2 ^ 53) \<longrightarrow>
             ids_unique (students (fst (create lc b st))))"
proof -
  note e = emails_unique_distinct[OF assms(1)]
  from assms have ok: "store_ok lc st" by (simp add: store_ok_def e)
  have h: "store_ok lc (fst (replace lc p b st))"
    "store_ok lc (fst (patch lc p b st))" "store_ok lc (fst (delete p st))"
    using ok by (rule replace_keeps_invariants patch_keeps_invariants
        delete_keeps_invariants)+
  have c: "emails_distinct lc (students (fst (create lc b st)))"
    using ok by (simp add: store_ok_def create_keeps_emails)
  have i: "(\<forall>s\<in>set (students st). sid s < 2 ^ 53) \<longrightarrow>
             ids_unique (students (fst (create lc b st)))"
    using assms(3) by (simp add: create_keeps_ids)
  from h c i show ?thesis by (simp add: store_ok_def e)
qed

theorem invariants_preserved_witness:
  "emails_unique same_up_to_case (students (fst (create lower_ascii david sample_store)))
   \<and> ids_unique (students (fst (create lower_ascii david sample_store)))
   \<and> emails_unique same_up_to_case
        (students (fst (patch lower_ascii (IdNum 2) name_then_bad_age sample_store)))
   \<and> ids_unique (students (fst (delete (IdNum 3) sample_store)))"
proof -
  have e: "emails_unique same_up_to_case (students sample_store)"
    unfolding emails_unique_distinct[OF lower_ascii_decides]
    by (simp add: emails_distinct_def sample_store_def sample_students_def
        lower_ascii_def lower_char_def upper_letters_def lower_letters_def)
  have i: "ids_unique (students sample_store)"
    by (simp add: ids_unique_def sample_store_def sample_students_def)
  have s: "\<forall>s\<in>set (students sample_store). sid s < 2 ^ 53"
    by (simp add: sample_store_def sample_students_def)
  note t = invariants_preserved[OF lower_ascii_decides e i]
  have "emails_unique same_up_to_case (students (fst (create lower_ascii david sample_store)))
     \<and> ids_unique (students (fst (create lower_ascii david sample_store)))"
    using t[where b = david] s by blast
  moreover have "emails_unique same_up_to_case
        (students (fst (patch lower_ascii (IdNum 2) name_then_bad_age sample_store)))"
    using t[where p = "IdNum 2" and b = name_then_bad_age] by blast
  moreover have "ids_unique (students (fst (delete (IdNum 3) sample_store)))"
    using t[where p = "IdNum 3"] by blast
  ultimately show ?thesis by blast
qed

theorem invariants_big_id_counterexample:
  "emails_unique same_up_to_case (students big_id_store)
   \<and> ids_unique (students big_id_store)
   \<and> status (create lower_ascii david big_id_store) = 201
   \<and> map sid (students (fst (create lower_ascii david big_id_store)))
       = [9007199254740992, 9007199254740992]
   \<and> \<not> ids_unique (students (fst (create lower_ascii david big_id_store)))"
  by (simp add: validate_def david_def create_def big_id_store_def status_def ids_unique_def
      lower_ascii_def lower_char_def upper_letters_def lower_letters_def
      saveStudents_def Let_def plus_double_def round_double_2_53_plus_1)

lemma patch_status_409:
  "status (patch lc p b st) = 409 \<longleftrightarrow>
     (\<exists>i. p = IdNum i \<and> i \<in> sid ` set (students st) \<and>
          \<not> text_fails (b_name b) \<and> \<not> age_fails (b_age b) \<and> is_text (b_email b) \<and>
          (\<exists>s\<in>set (students st). same_email lc (email s) (string_of (b_email b)) \<and> sid s \<noteq> i))"
proof (cases p)
  case NaN
  then show ?thesis by (simp add: patch_NaN status_def)
next
  case (IdNum i)
  show ?thesis
  proof (cases "findIndex (\<lambda>s. sid s = i) (students st)")
    case None
    then have "i \<notin> sid ` set (students st)" by (auto simp: findIndex_None)
    with None IdNum show ?thesis by (simp add: patch_missing status_def)
  next
    case (Some k)
    from findIndex_Some[OF Some] have mem: "i \<in> sid ` set (students st)"
      by (metis image_eqI nth_mem)
    have o: "others_with_email lc i e (students st) \<noteq> [] \<longleftrightarrow>
        (\<exists>s\<in>set (students st). same_email lc (email s) e \<and> sid s \<noteq> i)" for e
      by (auto simp: others_with_email_def filter_empty_conv)
    have t: "is_text v \<longleftrightarrow> \<not> text_fails v \<and> v \<noteq> JUndefined" for v
      by (cases v) (simp_all add: text_fails_def is_text_def)
    show ?thesis
      using IdNum mem o t
      by (simp add: patch_found[OF Some] Let_def status_def invalid_name_def invalid_age_def
          invalid_email_def invalid_isActive_def)
  qed
qed

lemma conflict_by_lowering:
  "(status (create lc b st) = 409 \<longleftrightarrow>
      validate b = [] \<and>
      (\<exists>s\<in>set (students st). same_email lc (email s) (string_of (b_email b))))
   \<and> (status (create lc b st) = 409 \<longrightarrow>
        (\<exists>x\<in>set (students st). same_email lc (email x) (string_of (b_email b)) \<and>
           create lc b st =
             (st, 409, ErrorStudent ''A student with this email already exists'' x)))
   \<and> (status (replace lc p b st) = 409 \<longleftrightarrow>
        (\<exists>i. p = IdNum i \<and> i \<in> sid ` set (students st) \<and> validate b = [] \<and>
           (\<exists>s\<in>set (students st).
               same_email lc (email s) (string_of (b_email b)) \<and> sid s \<noteq> i)))
   \<and> (status (replace lc p b st) = 409 \<longrightarrow>
        (\<exists>x\<in>set (students st). same_email lc (email x) (string_of (b_email b)) \<and>
           replace lc p b st =
             (st, 409, ErrorStudent ''Another student with this email already exists'' x)))
   \<and> (status (patch lc p b st) = 409 \<longleftrightarrow>
        (\<exists>i. p = IdNum i \<and> i \<in> sid ` set (students st) \<and>
           \<not> text_fails (b_name b) \<and> \<not> age_fails (b_age b) \<and> is_text (b_email b) \<and>
           (\<exists>s\<in>set (students st).
               same_email lc (email s) (string_of (b_email b)) \<and> sid s \<noteq> i)))
   \<and> (b_email b = JUndefined \<longrightarrow> status (patch lc p b st) \<noteq> 409)"
proof -
  have c: "\<exists>x\<in>set (students st). same_email lc (email x) (string_of (b_email b)) \<and>
           create lc b st =
             (st, 409, ErrorStudent ''A student with this email already exists'' x)"
    if "status (create lc b st) = 409"
  proof -
    from that have v: "validate b = []" by (simp add: create_status_409)
    show ?thesis
    proof (cases "find (\<lambda>s. same_email lc (email s) (string_of (b_email b))) (students st)")
      case None
      with v that show ?thesis by (simp add: create_fresh status_def Let_def)
    next
      case (Some x)
      then have "x \<in> set (students st)" "same_email lc (email x) (string_of (b_email b))"
        by (auto simp: find_Some_iff)
      with create_conflict[OF v Some] show ?thesis by blast
    qed
  qed
  have r: "\<exists>x\<in>set (students st). same_email lc (email x) (string_of (b_email b)) \<and>
           replace lc p b st =
             (st, 409, ErrorStudent ''Another student with this email already exists'' x)"
    if "status (replace lc p b st) = 409"
  proof -
    from that obtain i where i: "p = IdNum i" "i \<in> sid ` set (students st)" "validate b = []"
      by (auto simp: replace_status_409)
    from i(2) obtain k where k: "findIndex (\<lambda>s. sid s = i) (students st) = Some k"
      using findIndex_found[of _ "students st" "\<lambda>s. sid s = i"] by auto
    show ?thesis
    proof (cases "find (\<lambda>s. same_email lc (email s) (string_of (b_email b)) \<and> sid s \<noteq> i)
                    (students st)")
      case None
      with i k that show ?thesis by (simp add: replace_fresh status_def Let_def)
    next
      case (Some x)
      then have "x \<in> set (students st)" "same_email lc (email x) (string_of (b_email b))"
        by (auto simp: find_Some_iff)
      with replace_conflict[OF k i(3) Some] i(1) show ?thesis by blast
    qed
  qed
  have u: "b_email b = JUndefined \<longrightarrow> status (patch lc p b st) \<noteq> 409"
    by (simp add: patch_status_409 is_text_def)
  from c r u show ?thesis
    using create_status_409[where b = b and st = st and lc = lc]
      replace_status_409[where p = p and b = b and st = st and lc = lc]
      patch_status_409[where p = p and b = b and st = st and lc = lc]
    by blast
qed

text \<open>
  Claim C3. Take any lowering and the relation it decides as equality up to case.
  Create answers 409 exactly when the payload passes validation and some record of the
  store has an email equal to the payload's up to case; the answer then carries such a
  record and the store is as before. Replace of id \<open>i\<close> answers 409 exactly when \<open>i\<close>
  is in the store, the payload passes validation and some record with another id has an
  email equal to the payload's up to case; the store is then as before. Patch of id \<open>i\<close>
  answers 409 exactly when \<open>i\<close> is in the store, name and age pass if present, the
  email is present and a string, and some record with another id has an email equal to
  it up to case; with no email in the payload it never answers 409.
\<close>

theorem duplicate_email_conflict:
  assumes "decides lc ci"
  shows
  "(status (create lc b st) = 409 \<longleftrightarrow>
      validate b = [] \<and>
      (\<exists>s\<in>set (students st). ci (email s) (string_of (b_email b))))
   \<and> (status (create lc b st) = 409 \<longrightarrow>
        (\<exists>x\<in>set (students st). ci (email x) (string_of (b_email b)) \<and>
           create lc b st =
             (st, 409, ErrorStudent ''A student with this email already exists'' x)))
   \<and> (status (replace lc p b st) = 409 \<longleftrightarrow>
        (\<exists>i. p = IdNum i \<and> i \<in> sid ` set (students st) \<and> validate b = [] \<and>
           (\<exists>s\<in>set (students st).
               ci (email s) (string_of (b_email b)) \<and> sid s \<noteq> i)))
   \<and> (status (replace lc p b st) = 409 \<longrightarrow>
        (\<exists>x\<in>set (students st). ci (email x) (string_of (b_email b)) \<and>
           replace lc p b st =
             (st, 409, ErrorStudent ''Another student with this email already exists'' x)))
   \<and> (status (patch lc p b st) = 409 \<longleftrightarrow>
        (\<exists>i. p = IdNum i \<and> i \<in> sid ` set (students st) \<and>
           \<not> text_fails (b_name b) \<and> \<not> age_fails (b_age b) \<and> is_text (b_email b) \<and>
           (\<exists>s\<in>set (students st).
               ci (email s) (string_of (b_email b)) \<and> sid s \<noteq> i)))
   \<and> (b_email b = JUndefined \<longrightarrow> status (patch lc p b st) \<noteq> 409)"
proof -
  from assms have e: "same_email lc = ci"
    by (auto simp: same_email_def decides_def fun_eq_iff)
  show ?thesis
    using conflict_by_lowering[where lc = lc and b = b and st = st and p = p]
    unfolding e .
qed

theorem duplicate_email_conflict_witness:
  "create lower_ascii shouting_alice sample_store =
     (sample_store, 409,
      ErrorStudent ''A student with this email already exists''
        \<lparr>sid = 1, name = ''Alice Johnson'', age = 20, email = ''alice@example.com'',
          isActive = True\<rparr>)
   \<and> status (replace lower_ascii (IdNum 1) shouting_alice sample_store) \<noteq> 409
   \<and> status (replace lower_ascii (IdNum 2) shouting_alice sample_store) = 409
   \<and> status (create lower_ascii david sample_store) \<noteq> 409"
proof -
  note t = duplicate_email_conflict[OF lower_ascii_decides,
      where b = shouting_alice and st = sample_store]
  note ci = lower_ascii_decides[unfolded decides_def, rule_format, symmetric]
  have v: "validate shouting_alice = []"
    by (simp add: validate_def shouting_alice_def)
  have s: "\<forall>s\<in>set (students sample_store).
      same_up_to_case (email s) (string_of (b_email shouting_alice)) \<longleftrightarrow> sid s = 1"
    unfolding ci
    by (simp add: sample_store_def sample_students_def shouting_alice_def
        lower_ascii_def lower_char_def upper_letters_def lower_letters_def)
  have m: "1 \<in> sid ` set (students sample_store)" "2 \<in> sid ` set (students sample_store)"
    by (simp_all add: sample_store_def sample_students_def)
  from s have ex: "\<exists>s\<in>set (students sample_store).
      same_up_to_case (email s) (string_of (b_email shouting_alice))"
    by (simp add: sample_store_def sample_students_def)
  with t[where p = "IdNum 1"] v
  have "status (create lower_ascii shouting_alice sample_store) = 409" by blast
  with t[where p = "IdNum 1"] obtain x where x: "x \<in> set (students sample_store)"
    "same_up_to_case (email x) (string_of (b_email shouting_alice))"
    "create lower_ascii shouting_alice sample_store =
       (sample_store, 409, ErrorStudent ''A student with this email already exists'' x)"
    by blast
  from x(1,2) s have "x = \<lparr>sid = 1, name = ''Alice Johnson'', age = 20,
      email = ''alice@example.com'', isActive = True\<rparr>"
    by (auto simp: sample_store_def sample_students_def)
  with x(3) have c: "create lower_ascii shouting_alice sample_store =
     (sample_store, 409,
      ErrorStudent ''A student with this email already exists''
        \<lparr>sid = 1, name = ''Alice Johnson'', age = 20, email = ''alice@example.com'',
          isActive = True\<rparr>)" by simp
  have r1: "status (replace lower_ascii (IdNum 1) shouting_alice sample_store) \<noteq> 409"
    using t[where p = "IdNum 1"] s by auto
  have "\<exists>s\<in>set (students sample_store).
      same_up_to_case (email s) (string_of (b_email shouting_alice)) \<and> sid s \<noteq> 2"
    using s by (simp add: sample_store_def sample_students_def)
  with t[where p = "IdNum 2"] v m(2)
  have r2: "status (replace lower_ascii (IdNum 2) shouting_alice sample_store) = 409"
    by blast
  have n: "\<forall>s\<in>set (students sample_store).
      \<not> same_up_to_case (email s) (string_of (b_email david))"
    unfolding ci
    by (simp add: sample_store_def sample_students_def david_def
        lower_ascii_def lower_char_def upper_letters_def lower_letters_def)
  have r3: "status (create lower_ascii david sample_store) \<noteq> 409"
    using duplicate_email_conflict[OF lower_ascii_decides,
        where b = david and st = sample_store and p = "IdNum 1"] n
    by blast
  from c r1 r2 r3 show ?thesis by blast
qed

text \<open>
  Claim C8. For an id that is in the store and a payload that holds nothing but an age
  above 0, patch answers 200 with the record of that id, the first one in the array,
  carrying the new age. The array and the file then hold that record in its old place:
  its id, name, email and isActive are as before, and every other record is as before.
\<close>

theorem patch_age_only:
  assumes "i \<in> sid ` set (students st)" and "0 < a"
  shows "\<exists>k<length (students st).
           sid (students st ! k) = i \<and> (\<forall>j<k. sid (students st ! j) \<noteq> i)
         \<and> patch lc (IdNum i) (age_only a) st =
             (\<lparr>students = (students st)[k := (students st ! k)\<lparr>age := a\<rparr>],
               json_file = (students st)[k := (students st ! k)\<lparr>age := a\<rparr>]\<rparr>,
              200,
              MessageStudent ''Student partially updated'' ((students st ! k)\<lparr>age := a\<rparr>))
         \<and> length (students (fst (patch lc (IdNum i) (age_only a) st))) = length (students st)
         \<and> (\<forall>j<length (students st). j \<noteq> k \<longrightarrow>
               students (fst (patch lc (IdNum i) (age_only a) st)) ! j = students st ! j)
         \<and> sid (students (fst (patch lc (IdNum i) (age_only a) st)) ! k) = sid (students st ! k)
         \<and> name (students (fst (patch lc (IdNum i) (age_only a) st)) ! k) = name (students st ! k)
         \<and> email (students (fst (patch lc (IdNum i) (age_only a) st)) ! k)
             = email (students st ! k)
         \<and> isActive (students (fst (patch lc (IdNum i) (age_only a) st)) ! k)
             = isActive (students st ! k)
         \<and> age (students (fst (patch lc (IdNum i) (age_only a) st)) ! k) = a"
proof -
  from assms(1) obtain k where k: "findIndex (\<lambda>s. sid s = i) (students st) = Some k"
    using findIndex_found[of _ "students st" "\<lambda>s. sid s = i"] by auto
  from findIndex_Some[OF k] have f: "k < length (students st)" "sid (students st ! k) = i"
    "\<forall>j<k. sid (students st ! j) \<noteq> i" by auto
  have p: "patch lc (IdNum i) (age_only a) st =
             (\<lparr>students = (students st)[k := (students st ! k)\<lparr>age := a\<rparr>],
               json_file = (students st)[k := (students st ! k)\<lparr>age := a\<rparr>]\<rparr>,
              200,
              MessageStudent ''Student partially updated'' ((students st ! k)\<lparr>age := a\<rparr>))"
    using assms(2)
    by (simp add: patch_found[OF k] Let_def age_only_def text_fails_def age_fails_def
        isActive_fails_def positive_number_def apply_name_def apply_age_def apply_email_def
        apply_isActive_def)
  show ?thesis
    using f by (intro exI[of _ k]) (simp add: p)
qed

theorem patch_age_only_witness:
  "patch lower_ascii (IdNum 2) (age_only 23) sample_store =
     (\<lparr>students =
         [\<lparr>sid = 1, name = ''Alice Johnson'', age = 20, email = ''alice@example.com'',
           isActive = True\<rparr>,
          \<lparr>sid = 2, name = ''Bob Smith'', age = 23, email = ''bob@example.com'',
           isActive = True\<rparr>,
          \<lparr>sid = 3, name = ''Charlie Brown'', age = 19, email = ''charlie@example.com'',
           isActive = False\<rparr>],
       json_file =
         [\<lparr>sid = 1, name = ''Alice Johnson'', age = 20, email = ''alice@example.com'',
           isActive = True\<rparr>,
          \<lparr>sid = 2, name = ''Bob Smith'', age = 23, email = ''bob@example.com'',
           isActive = True\<rparr>,
          \<lparr>sid = 3, name = ''Charlie Brown'', age = 19, email = ''charlie@example.com'',
           isActive = False\<rparr>]\<rparr>,
      200,
      MessageStudent ''Student partially updated''
        \<lparr>sid = 2, name = ''Bob Smith'', age = 23, email = ''bob@example.com'',
          isActive = True\<rparr>)"
proof -
  have m: "2 \<in> sid ` set (students sample_store)"
    by (simp add: sample_store_def sample_students_def)
  have a: "(0::real) < 23" by simp
  from patch_age_only[OF m a] obtain k where
    k: "k < length (students sample_store)" "sid (students sample_store ! k) = 2"
    and p: "patch lower_ascii (IdNum 2) (age_only 23) sample_store =
             (\<lparr>students = (students sample_store)[k := (students sample_store ! k)\<lparr>age := 23\<rparr>],
               json_file = (students sample_store)[k := (students sample_store ! k)\<lparr>age := 23\<rparr>]\<rparr>,
              200,
              MessageStudent ''Student partially updated''
                ((students sample_store ! k)\<lparr>age := 23\<rparr>))"
    by blast
  from k have "k = 1"
    by (auto simp: sample_store_def sample_students_def less_Suc_eq numeral_3_eq_3)
  with p show ?thesis by (simp add: sample_store_def sample_students_def)
qed

lemma replace_twice:
  "replace lc p b (fst (replace lc p b st)) = replace lc p b st"
proof (cases p)
  case NaN
  then show ?thesis by (simp add: replace_NaN)
next
  case (IdNum i)
  show ?thesis
  proof (cases "findIndex (\<lambda>s. sid s = i) (students st)")
    case None
    with IdNum show ?thesis by (simp add: replace_missing)
  next
    case (Some k)
    note k = this
    from findIndex_Some[OF k] have idk: "sid (students st ! k) = i" by simp
    show ?thesis
    proof (cases "validate b = []")
      case False
      with IdNum k show ?thesis by (simp add: replace_invalid)
    next
      case True
      let ?Q = "\<lambda>s. same_email lc (email s) (string_of (b_email b)) \<and> sid s \<noteq> i"
      show ?thesis
      proof (cases "find ?Q (students st)")
        case (Some x)
        with True IdNum k show ?thesis by (simp add: replace_conflict)
      next
        case None
        let ?u = "\<lparr>sid = i, name = string_of (b_name b), age = number_of (b_age b),
                    email = string_of (b_email b), isActive = bool_of (b_isActive b)\<rparr>"
        let ?st1 = "\<lparr>students = (students st)[k := ?u], json_file = (students st)[k := ?u]\<rparr>"
        have first: "replace lc (IdNum i) b st = (?st1, 200, MessageStudent ''Student updated'' ?u)"
          using replace_fresh[OF k True None] by (simp add: Let_def)
        have k1: "findIndex (\<lambda>s. sid s = i) (students ?st1) = Some k"
          using findIndex_update[OF k, of ?u] by simp
        have n1: "find ?Q (students ?st1) = None"
          using find_update_other[of ?Q "students st" k ?u] idk None by simp
        have "replace lc (IdNum i) b ?st1 = (?st1, 200, MessageStudent ''Student updated'' ?u)"
          using replace_fresh[OF k1 True n1] by (simp add: Let_def)
        with first IdNum show ?thesis by simp
      qed
    qed
  qed
qed

lemma replace_status_200:
  "status (replace lc p b st) = 200 \<longleftrightarrow>
     (\<exists>i. p = IdNum i \<and> i \<in> sid ` set (students st) \<and> validate b = [] \<and>
          others_with_email lc i (string_of (b_email b)) (students st) = [])"
proof (cases p)
  case NaN
  then show ?thesis by (simp add: replace_NaN status_def)
next
  case (IdNum i)
  show ?thesis
  proof (cases "findIndex (\<lambda>s. sid s = i) (students st)")
    case None
    then have "i \<notin> sid ` set (students st)" by (auto simp: findIndex_None)
    with None IdNum show ?thesis by (simp add: replace_missing status_def)
  next
    case (Some k)
    from findIndex_Some[OF Some] have mem: "i \<in> sid ` set (students st)"
      by (metis image_eqI nth_mem)
    show ?thesis
    proof (cases "validate b = []")
      case False
      with Some IdNum show ?thesis by (simp add: replace_invalid status_def)
    next
      case True
      show ?thesis
      proof (cases "find (\<lambda>s. same_email lc (email s) (string_of (b_email b)) \<and> sid s \<noteq> i)
                      (students st)")
        case None
        with True Some IdNum mem show ?thesis
          by (auto simp: replace_fresh status_def Let_def find_None_iff others_with_email_def
              filter_empty_conv)
      next
        case (Some x)
        with True \<open>findIndex (\<lambda>s. sid s = i) (students st) = Some k\<close> IdNum mem show ?thesis
          by (auto simp: replace_conflict status_def find_Some_iff others_with_email_def
              filter_empty_conv)
      qed
    qed
  qed
qed

text \<open>
  Claim C9. Replace with the same id and body a second time gives the answer and the
  store of the first time. A replace is accepted (200) exactly when the id is in the
  store, the body passes validation and no record with another id has the body's email
  up to case; the answer of both calls is then the record made of the id and the four
  fields of the body, and that record is the one the store holds at the place of the id
  after the first call and after the second.
\<close>

theorem replace_idempotent:
  "replace lc p b (fst (replace lc p b st)) = replace lc p b st
   \<and> (status (replace lc p b st) = 200 \<longleftrightarrow>
        (\<exists>i. p = IdNum i \<and> i \<in> sid ` set (students st) \<and> validate b = [] \<and>
             others_with_email lc i (string_of (b_email b)) (students st) = []))
   \<and> (\<forall>i k. p = IdNum i \<and> findIndex (\<lambda>s. sid s = i) (students st) = Some k
          \<and> status (replace lc p b st) = 200 \<longrightarrow>
        snd (replace lc p b st) =
          (200, MessageStudent ''Student updated''
             \<lparr>sid = i, name = string_of (b_name b), age = number_of (b_age b),
               email = string_of (b_email b), isActive = bool_of (b_isActive b)\<rparr>)
        \<and> students (fst (replace lc p b st)) ! k =
             \<lparr>sid = i, name = string_of (b_name b), age = number_of (b_age b),
               email = string_of (b_email b), isActive = bool_of (b_isActive b)\<rparr>
        \<and> students (fst (replace lc p b (fst (replace lc p b st)))) ! k =
             \<lparr>sid = i, name = string_of (b_name b), age = number_of (b_age b),
               email = string_of (b_email b), isActive = bool_of (b_isActive b)\<rparr>
        \<and> json_file (fst (replace lc p b st)) = students (fst (replace lc p b st)))"
proof -
  have d: "snd (replace lc p b st) =
          (200, MessageStudent ''Student updated''
             \<lparr>sid = i, name = string_of (b_name b), age = number_of (b_age b),
               email = string_of (b_email b), isActive = bool_of (b_isActive b)\<rparr>)
        \<and> students (fst (replace lc p b st)) ! k =
             \<lparr>sid = i, name = string_of (b_name b), age = number_of (b_age b),
               email = string_of (b_email b), isActive = bool_of (b_isActive b)\<rparr>
        \<and> students (fst (replace lc p b (fst (replace lc p b st)))) ! k =
             \<lparr>sid = i, name = string_of (b_name b), age = number_of (b_age b),
               email = string_of (b_email b), isActive = bool_of (b_isActive b)\<rparr>
        \<and> json_file (fst (replace lc p b st)) = students (fst (replace lc p b st))"
    if p: "p = IdNum i" and k: "findIndex (\<lambda>s. sid s = i) (students st) = Some k"
      and s: "status (replace lc p b st) = 200" for i k
  proof -
    from s p have v: "validate b = []"
      and o: "others_with_email lc i (string_of (b_email b)) (students st) = []"
      by (auto simp: replace_status_200)
    from o have n: "find (\<lambda>s. same_email lc (email s) (string_of (b_email b)) \<and> sid s \<noteq> i)
                      (students st) = None"
      by (simp add: find_filter others_with_email_def)
    from findIndex_Some[OF k] have len: "k < length (students st)" by simp
    show ?thesis
      unfolding replace_twice using len p
      by (simp add: replace_fresh[OF k v n] Let_def)
  qed
  from d show ?thesis
    using replace_twice[where p = p and b = b and st = st and lc = lc]
      replace_status_200[where p = p and b = b and st = st and lc = lc] by blast
qed

theorem replace_idempotent_witness:
  "replace lower_ascii (IdNum 2) david (fst (replace lower_ascii (IdNum 2) david sample_store))
     = replace lower_ascii (IdNum 2) david sample_store
   \<and> snd (replace lower_ascii (IdNum 2) david sample_store) =
       (200, MessageStudent ''Student updated''
          \<lparr>sid = 2, name = ''David Lee'', age = 21, email = ''david@example.com'',
            isActive = True\<rparr>)
   \<and> students (fst (replace lower_ascii (IdNum 2) david (fst (replace lower_ascii (IdNum 2) david sample_store)))) ! 1
       = \<lparr>sid = 2, name = ''David Lee'', age = 21, email = ''david@example.com'',
           isActive = True\<rparr>"
proof -
  note t = replace_idempotent[where p = "IdNum 2" and b = david and st = sample_store]
  have m: "2 \<in> sid ` set (students sample_store)"
    by (simp add: sample_store_def sample_students_def)
  have v: "validate david = []"
    by (simp add: validate_def david_def)
  have o: "others_with_email lower_ascii 2 (string_of (b_email david)) (students sample_store) = []"
    by (simp add: others_with_email_def sample_store_def sample_students_def david_def
        same_email_def lower_ascii_def lower_char_def upper_letters_def lower_letters_def)
  have k: "findIndex (\<lambda>s. sid s = 2) (students sample_store) = Some 1"
    by (simp add: sample_store_def sample_students_def)
  from t m v o have s: "status (replace lower_ascii (IdNum 2) david sample_store) = 200" by blast
  from t k s have
    "snd (replace lower_ascii (IdNum 2) david sample_store) =
          (200, MessageStudent ''Student updated''
             \<lparr>sid = 2, name = string_of (b_name david), age = number_of (b_age david),
               email = string_of (b_email david), isActive = bool_of (b_isActive david)\<rparr>)
     \<and> students (fst (replace lower_ascii (IdNum 2) david (fst (replace lower_ascii (IdNum 2) david sample_store)))) ! 1 =
             \<lparr>sid = 2, name = string_of (b_name david), age = number_of (b_age david),
               email = string_of (b_email david), isActive = bool_of (b_isActive david)\<rparr>"
    by blast
  with t show ?thesis by (simp add: david_def)
qed

lemma patch_file_or_200:
  "findIndex (\<lambda>s. sid s = i) (students st) = Some k \<Longrightarrow>
   json_file (fst (patch lc (IdNum i) b st)) = json_file st \<or> status (patch lc (IdNum i) b st) = 200"
  by (simp add: patch_found Let_def status_def)

lemma patch_error_keeps_file:
  "status (patch lc p b st) \<noteq> 200 \<Longrightarrow> json_file (fst (patch lc p b st)) = json_file st"
proof (cases p)
  case NaN
  then show ?thesis by (simp add: patch_NaN)
next
  case (IdNum i)
  assume s: "status (patch lc p b st) \<noteq> 200"
  show ?thesis
  proof (cases "findIndex (\<lambda>s. sid s = i) (students st)")
    case None
    with IdNum show ?thesis by (simp add: patch_missing)
  next
    case (Some k)
    with s IdNum patch_file_or_200[OF Some, where b = b and lc = lc] show ?thesis by blast
  qed
qed

text \<open>
  Claim C10. Patch writes the fields to the record in the array one at a time, in the
  order name, age, email, isActive, and answers at the first present field it turns
  down. With the record found at index \<open>k\<close>: when the age is turned down, the answer is
  400 and the array already holds the record with the payload's name; when the email is
  not a string, the answer is 400 and the array holds the record with the payload's name
  and age; when the email is that of a record with another id, the answer is 409 with the
  same array; when isActive is turned down, the answer is 400 and the array holds the
  record with the payload's name, age and email. In each case the file is as before; it
  is so whenever patch does not answer 200.
\<close>

theorem patch_not_atomic:
  assumes "findIndex (\<lambda>s. sid s = i) (students st) = Some k"
  shows "(\<not> text_fails (b_name b) \<and> age_fails (b_age b) \<longrightarrow>
            patch lc (IdNum i) b st =
              (st\<lparr>students := (students st)[k := apply_name (b_name b) (students st ! k)]\<rparr>,
               invalid_age))
       \<and> (\<not> text_fails (b_name b) \<and> \<not> age_fails (b_age b) \<and> text_fails (b_email b) \<longrightarrow>
            patch lc (IdNum i) b st =
              (st\<lparr>students := (students st)
                    [k := apply_age (b_age b) (apply_name (b_name b) (students st ! k))]\<rparr>,
               invalid_email))
       \<and> (\<not> text_fails (b_name b) \<and> \<not> age_fails (b_age b) \<and> is_text (b_email b)
            \<and> others_with_email lc i (string_of (b_email b)) (students st) \<noteq> [] \<longrightarrow>
            patch lc (IdNum i) b st =
              (st\<lparr>students := (students st)
                    [k := apply_age (b_age b) (apply_name (b_name b) (students st ! k))]\<rparr>,
               409,
               ErrorStudent ''Another student with this email already exists''
                 (hd (others_with_email lc i (string_of (b_email b)) (students st)))))
       \<and> (\<not> text_fails (b_name b) \<and> \<not> age_fails (b_age b) \<and> \<not> text_fails (b_email b)
            \<and> (b_email b = JUndefined
                \<or> others_with_email lc i (string_of (b_email b)) (students st) = [])
            \<and> isActive_fails (b_isActive b) \<longrightarrow>
            patch lc (IdNum i) b st =
              (st\<lparr>students := (students st)
                    [k := apply_email (b_email b) (apply_age (b_age b)
                            (apply_name (b_name b) (students st ! k)))]\<rparr>,
               invalid_isActive))
       \<and> (is_text (b_name b) \<longrightarrow>
            name (apply_name (b_name b) (students st ! k)) = string_of (b_name b)
            \<and> name (apply_age (b_age b) (apply_name (b_name b) (students st ! k)))
                = string_of (b_name b)
            \<and> name (apply_email (b_email b) (apply_age (b_age b)
                      (apply_name (b_name b) (students st ! k))))
                = string_of (b_name b))
       \<and> (positive_number (b_age b) \<longrightarrow>
            age (apply_age (b_age b) (apply_name (b_name b) (students st ! k)))
                = number_of (b_age b)
            \<and> age (apply_email (b_email b) (apply_age (b_age b)
                      (apply_name (b_name b) (students st ! k))))
                = number_of (b_age b))
       \<and> (is_text (b_email b) \<longrightarrow>
            email (apply_email (b_email b) (apply_age (b_age b)
                      (apply_name (b_name b) (students st ! k))))
                = string_of (b_email b))
       \<and> fst invalid_age = 400 \<and> fst invalid_email = 400 \<and> fst invalid_isActive = 400
       \<and> (status (patch lc p b st) \<noteq> 200 \<longrightarrow> json_file (fst (patch lc p b st)) = json_file st)"
proof -
  have t: "is_text v \<Longrightarrow> \<not> text_fails v \<and> v \<noteq> JUndefined" for v
    by (cases v) (simp_all add: text_fails_def is_text_def)
  have pn: "positive_number v \<Longrightarrow> v \<noteq> JUndefined" for v
    by (cases v) (simp_all add: positive_number_def)
  have a: "\<not> text_fails (b_name b) \<and> age_fails (b_age b) \<longrightarrow>
            patch lc (IdNum i) b st =
              (st\<lparr>students := (students st)[k := apply_name (b_name b) (students st ! k)]\<rparr>,
               invalid_age)"
    by (simp add: patch_found[OF assms] Let_def)
  have e: "\<not> text_fails (b_name b) \<and> \<not> age_fails (b_age b) \<and> text_fails (b_email b) \<longrightarrow>
            patch lc (IdNum i) b st =
              (st\<lparr>students := (students st)
                    [k := apply_age (b_age b) (apply_name (b_name b) (students st ! k))]\<rparr>,
               invalid_email)"
    by (simp add: patch_found[OF assms] Let_def)
  have d: "\<not> text_fails (b_name b) \<and> \<not> age_fails (b_age b) \<and> is_text (b_email b)
            \<and> others_with_email lc i (string_of (b_email b)) (students st) \<noteq> [] \<longrightarrow>
            patch lc (IdNum i) b st =
              (st\<lparr>students := (students st)
                    [k := apply_age (b_age b) (apply_name (b_name b) (students st ! k))]\<rparr>,
               409,
               ErrorStudent ''Another student with this email already exists''
                 (hd (others_with_email lc i (string_of (b_email b)) (students st))))"
    using t[of "b_email b"] by (simp add: patch_found[OF assms] Let_def)
  have c: "\<not> text_fails (b_name b) \<and> \<not> age_fails (b_age b) \<and> \<not> text_fails (b_email b)
            \<and> (b_email b = JUndefined
                \<or> others_with_email lc i (string_of (b_email b)) (students st) = [])
            \<and> isActive_fails (b_isActive b) \<longrightarrow>
            patch lc (IdNum i) b st =
              (st\<lparr>students := (students st)
                    [k := apply_email (b_email b) (apply_age (b_age b)
                            (apply_name (b_name b) (students st ! k)))]\<rparr>,
               invalid_isActive)"
    by (auto simp: patch_found[OF assms] Let_def)
  have w: "(is_text (b_name b) \<longrightarrow>
            name (apply_name (b_name b) (students st ! k)) = string_of (b_name b)
            \<and> name (apply_age (b_age b) (apply_name (b_name b) (students st ! k)))
                = string_of (b_name b)
            \<and> name (apply_email (b_email b) (apply_age (b_age b)
                      (apply_name (b_name b) (students st ! k))))
                = string_of (b_name b))
       \<and> (positive_number (b_age b) \<longrightarrow>
            age (apply_age (b_age b) (apply_name (b_name b) (students st ! k)))
                = number_of (b_age b)
            \<and> age (apply_email (b_email b) (apply_age (b_age b)
                      (apply_name (b_name b) (students st ! k))))
                = number_of (b_age b))
       \<and> (is_text (b_email b) \<longrightarrow>
            email (apply_email (b_email b) (apply_age (b_age b)
                      (apply_name (b_name b) (students st ! k))))
                = string_of (b_email b))"
    using t[of "b_name b"] t[of "b_email b"] pn[of "b_age b"]
    by (auto simp: apply_name_def apply_age_def apply_email_def)
  have s: "fst invalid_age = 400 \<and> fst invalid_email = 400 \<and> fst invalid_isActive = 400"
    by (simp add: invalid_age_def invalid_email_def invalid_isActive_def)
  from a e d c w s patch_error_keeps_file[where p = p and b = b and st = st and lc = lc] show ?thesis by blast
qed

theorem patch_not_atomic_witness:
  "patch lower_ascii (IdNum 2) name_then_bad_age sample_store =
     (\<lparr>students =
         [\<lparr>sid = 1, name = ''Alice Johnson'', age = 20, email = ''alice@example.com'',
           isActive = True\<rparr>,
          \<lparr>sid = 2, name = ''Robert Smith'', age = 22, email = ''bob@example.com'',
           isActive = True\<rparr>,
          \<lparr>sid = 3, name = ''Charlie Brown'', age = 19, email = ''charlie@example.com'',
           isActive = False\<rparr>],
       json_file = sample_students\<rparr>,
      400, Error ''Invalid 'age'. Must be a positive number.'')
   \<and> patch lower_ascii (IdNum 2) shouting_alice sample_store =
     (\<lparr>students =
         [\<lparr>sid = 1, name = ''Alice Johnson'', age = 20, email = ''alice@example.com'',
           isActive = True\<rparr>,
          \<lparr>sid = 2, name = ''Alice Two'', age = 30, email = ''bob@example.com'',
           isActive = True\<rparr>,
          \<lparr>sid = 3, name = ''Charlie Brown'', age = 19, email = ''charlie@example.com'',
           isActive = False\<rparr>],
       json_file = sample_students\<rparr>,
      409,
      ErrorStudent ''Another student with this email already exists''
        \<lparr>sid = 1, name = ''Alice Johnson'', age = 20, email = ''alice@example.com'',
          isActive = True\<rparr>)"
proof -
  have k: "findIndex (\<lambda>s. sid s = 2) (students sample_store) = Some 1"
    by (simp add: sample_store_def sample_students_def)
  have f: "\<not> text_fails (b_name name_then_bad_age) \<and> age_fails (b_age name_then_bad_age)"
    by (simp add: name_then_bad_age_def text_fails_def age_fails_def is_text_def
        positive_number_def)
  from patch_not_atomic[OF k, where b = name_then_bad_age] f
  have "patch lower_ascii (IdNum 2) name_then_bad_age sample_store =
     (sample_store\<lparr>students := (students sample_store)
         [1 := apply_name (b_name name_then_bad_age) (students sample_store ! 1)]\<rparr>,
      invalid_age)"
    by blast
  then have a: "patch lower_ascii (IdNum 2) name_then_bad_age sample_store =
     (\<lparr>students =
         [\<lparr>sid = 1, name = ''Alice Johnson'', age = 20, email = ''alice@example.com'',
           isActive = True\<rparr>,
          \<lparr>sid = 2, name = ''Robert Smith'', age = 22, email = ''bob@example.com'',
           isActive = True\<rparr>,
          \<lparr>sid = 3, name = ''Charlie Brown'', age = 19, email = ''charlie@example.com'',
           isActive = False\<rparr>],
       json_file = sample_students\<rparr>,
      400, Error ''Invalid 'age'. Must be a positive number.'')"
    by (simp add: sample_store_def sample_students_def name_then_bad_age_def apply_name_def
        invalid_age_def)
  have o: "others_with_email lower_ascii 2 (string_of (b_email shouting_alice)) (students sample_store)
             = [\<lparr>sid = 1, name = ''Alice Johnson'', age = 20, email = ''alice@example.com'',
                  isActive = True\<rparr>]"
    by (simp add: others_with_email_def shouting_alice_def sample_store_def
        sample_students_def same_email_def lower_ascii_def lower_char_def upper_letters_def lower_letters_def)
  have g: "\<not> text_fails (b_name shouting_alice) \<and> \<not> age_fails (b_age shouting_alice)
           \<and> is_text (b_email shouting_alice)
           \<and> others_with_email lower_ascii 2 (string_of (b_email shouting_alice)) (students sample_store)
               \<noteq> []"
    unfolding o
    by (simp add: shouting_alice_def text_fails_def age_fails_def is_text_def
        positive_number_def)
  from patch_not_atomic[OF k, where b = shouting_alice] g
  have "patch lower_ascii (IdNum 2) shouting_alice sample_store =
     (sample_store\<lparr>students := (students sample_store)
         [1 := apply_age (b_age shouting_alice)
                 (apply_name (b_name shouting_alice) (students sample_store ! 1))]\<rparr>,
      409,
      ErrorStudent ''Another student with this email already exists''
        (hd (others_with_email lower_ascii 2 (string_of (b_email shouting_alice))
               (students sample_store))))"
    by blast
  then have d: "patch lower_ascii (IdNum 2) shouting_alice sample_store =
     (\<lparr>students =
         [\<lparr>sid = 1, name = ''Alice Johnson'', age = 20, email = ''alice@example.com'',
           isActive = True\<rparr>,
          \<lparr>sid = 2, name = ''Alice Two'', age = 30, email = ''bob@example.com'',
           isActive = True\<rparr>,
          \<lparr>sid = 3, name = ''Charlie Brown'', age = 19, email = ''charlie@example.com'',
           isActive = False\<rparr>],
       json_file = sample_students\<rparr>,
      409,
      ErrorStudent ''Another student with this email already exists''
        \<lparr>sid = 1, name = ''Alice Johnson'', age = 20, email = ''alice@example.com'',
          isActive = True\<rparr>)"
    unfolding o
    by (simp add: sample_store_def sample_students_def shouting_alice_def apply_name_def
        apply_age_def)
  from a d show ?thesis by (rule conjI)
qed

lemma patch_untouched:
  assumes k: "findIndex (\<lambda>s. sid s = i) (students st) = Some k"
  shows "(b_name b = JUndefined \<longrightarrow>
            name (students (fst (patch lc (IdNum i) b st)) ! k) = name (students st ! k))
       \<and> (b_age b = JUndefined \<longrightarrow>
            age (students (fst (patch lc (IdNum i) b st)) ! k) = age (students st ! k))
       \<and> (b_email b = JUndefined \<longrightarrow>
            email (students (fst (patch lc (IdNum i) b st)) ! k) = email (students st ! k))
       \<and> (b_isActive b = JUndefined \<longrightarrow>
            isActive (students (fst (patch lc (IdNum i) b st)) ! k) = isActive (students st ! k))"
proof -
  from findIndex_Some[OF k] have len: "k < length (students st)" by simp
  show ?thesis
    using len
    by (simp add: patch_found[OF k] Let_def apply_name_def apply_age_def apply_email_def
        apply_isActive_def)
qed

text \<open>
  Claim C6. Patch checks each field that is present, in the order name, age, email,
  isActive, and answers 400 at the first one it turns down, with the message of that
  field alone. A present name or email is turned down when it is not a string; the empty
  string passes, which full validation turns down. A present age is turned down when it
  is not a number above 0, a present isActive when it is not a boolean, as in full
  validation. When no field is turned down and the email meets no record with another
  id, the answer is 200 with the record updated in the present fields, written to the
  array and the file. A field absent from the payload keeps its value in the record,
  whatever the answer.
\<close>

theorem patch_validation:
  assumes "findIndex (\<lambda>s. sid s = i) (students st) = Some k"
  shows "(text_fails (b_name b) \<longrightarrow> patch lc (IdNum i) b st = (st, invalid_name))
       \<and> (\<not> text_fails (b_name b) \<and> age_fails (b_age b) \<longrightarrow>
            snd (patch lc (IdNum i) b st) = invalid_age)
       \<and> (\<not> text_fails (b_name b) \<and> \<not> age_fails (b_age b) \<and> text_fails (b_email b) \<longrightarrow>
            snd (patch lc (IdNum i) b st) = invalid_email)
       \<and> (\<not> text_fails (b_name b) \<and> \<not> age_fails (b_age b) \<and> \<not> text_fails (b_email b)
            \<and> (b_email b = JUndefined
                \<or> others_with_email lc i (string_of (b_email b)) (students st) = [])
            \<and> isActive_fails (b_isActive b) \<longrightarrow>
            snd (patch lc (IdNum i) b st) = invalid_isActive)
       \<and> (\<not> text_fails (b_name b) \<and> \<not> age_fails (b_age b) \<and> \<not> text_fails (b_email b)
            \<and> (b_email b = JUndefined
                \<or> others_with_email lc i (string_of (b_email b)) (students st) = [])
            \<and> \<not> isActive_fails (b_isActive b) \<longrightarrow>
            patch lc (IdNum i) b st =
              (\<lparr>students = (students st)
                   [k := apply_isActive (b_isActive b) (apply_email (b_email b)
                           (apply_age (b_age b) (apply_name (b_name b) (students st ! k))))],
                json_file = (students st)
                   [k := apply_isActive (b_isActive b) (apply_email (b_email b)
                           (apply_age (b_age b) (apply_name (b_name b) (students st ! k))))]\<rparr>,
               200,
               MessageStudent ''Student partially updated''
                 (apply_isActive (b_isActive b) (apply_email (b_email b)
                    (apply_age (b_age b) (apply_name (b_name b) (students st ! k)))))))
       \<and> (b_name b = JUndefined \<longrightarrow>
            name (students (fst (patch lc (IdNum i) b st)) ! k) = name (students st ! k))
       \<and> (b_age b = JUndefined \<longrightarrow>
            age (students (fst (patch lc (IdNum i) b st)) ! k) = age (students st ! k))
       \<and> (b_email b = JUndefined \<longrightarrow>
            email (students (fst (patch lc (IdNum i) b st)) ! k) = email (students st ! k))
       \<and> (b_isActive b = JUndefined \<longrightarrow>
            isActive (students (fst (patch lc (IdNum i) b st)) ! k) = isActive (students st ! k))
       \<and> (v \<noteq> JUndefined \<longrightarrow>
            (text_fails v \<longleftrightarrow> \<not> nonempty_text v \<and> v \<noteq> JStr [])
            \<and> (age_fails v \<longleftrightarrow> \<not> positive_number v)
            \<and> (isActive_fails v \<longleftrightarrow> \<not> is_boolean v))
       \<and> fst invalid_name = 400 \<and> fst invalid_age = 400 \<and> fst invalid_email = 400
       \<and> fst invalid_isActive = 400"
proof -
  have r: "v \<noteq> JUndefined \<longrightarrow>
            (text_fails v \<longleftrightarrow> \<not> nonempty_text v \<and> v \<noteq> JStr [])
            \<and> (age_fails v \<longleftrightarrow> \<not> positive_number v)
            \<and> (isActive_fails v \<longleftrightarrow> \<not> is_boolean v)"
    by (cases v) (simp_all add: text_fails_def age_fails_def isActive_fails_def is_text_def
        nonempty_text_def)
  have s: "fst invalid_name = 400" "fst invalid_age = 400" "fst invalid_email = 400"
    "fst invalid_isActive = 400"
    by (simp_all add: invalid_name_def invalid_age_def invalid_email_def invalid_isActive_def)
  have n: "text_fails (b_name b) \<longrightarrow> patch lc (IdNum i) b st = (st, invalid_name)"
    by (simp add: patch_found[OF assms] Let_def)
  have a: "\<not> text_fails (b_name b) \<and> age_fails (b_age b) \<longrightarrow>
            snd (patch lc (IdNum i) b st) = invalid_age"
    by (simp add: patch_found[OF assms] Let_def)
  have e: "\<not> text_fails (b_name b) \<and> \<not> age_fails (b_age b) \<and> text_fails (b_email b) \<longrightarrow>
            snd (patch lc (IdNum i) b st) = invalid_email"
    by (simp add: patch_found[OF assms] Let_def)
  have c: "\<not> text_fails (b_name b) \<and> \<not> age_fails (b_age b) \<and> \<not> text_fails (b_email b)
            \<and> (b_email b = JUndefined
                \<or> others_with_email lc i (string_of (b_email b)) (students st) = [])
            \<and> isActive_fails (b_isActive b) \<longrightarrow>
            snd (patch lc (IdNum i) b st) = invalid_isActive"
    by (auto simp: patch_found[OF assms] Let_def)
  have g: "\<not> text_fails (b_name b) \<and> \<not> age_fails (b_age b) \<and> \<not> text_fails (b_email b)
            \<and> (b_email b = JUndefined
                \<or> others_with_email lc i (string_of (b_email b)) (students st) = [])
            \<and> \<not> isActive_fails (b_isActive b) \<longrightarrow>
            patch lc (IdNum i) b st =
              (\<lparr>students = (students st)
                   [k := apply_isActive (b_isActive b) (apply_email (b_email b)
                           (apply_age (b_age b) (apply_name (b_name b) (students st ! k))))],
                json_file = (students st)
                   [k := apply_isActive (b_isActive b) (apply_email (b_email b)
                           (apply_age (b_age b) (apply_name (b_name b) (students st ! k))))]\<rparr>,
               200,
               MessageStudent ''Student partially updated''
                 (apply_isActive (b_isActive b) (apply_email (b_email b)
                    (apply_age (b_age b) (apply_name (b_name b) (students st ! k))))))"
    by (auto simp: patch_found[OF assms] Let_def)
  note u = patch_untouched[OF assms, where b = b]
  have u1: "b_name b = JUndefined \<longrightarrow>
            name (students (fst (patch lc (IdNum i) b st)) ! k) = name (students st ! k)"
    and u2: "b_age b = JUndefined \<longrightarrow>
            age (students (fst (patch lc (IdNum i) b st)) ! k) = age (students st ! k)"
    and u3: "b_email b = JUndefined \<longrightarrow>
            email (students (fst (patch lc (IdNum i) b st)) ! k) = email (students st ! k)"
    and u4: "b_isActive b = JUndefined \<longrightarrow>
            isActive (students (fst (patch lc (IdNum i) b st)) ! k) = isActive (students st ! k)"
    using u by (rule conjunct1, rule conjunct2[THEN conjunct1],
        rule conjunct2[THEN conjunct2, THEN conjunct1],
        rule conjunct2[THEN conjunct2, THEN conjunct2])
  show ?thesis
    by (intro conjI) (rule n a e c g u1 u2 u3 u4 r s)+
qed

theorem patch_validation_witness:
  "patch lower_ascii (IdNum 2) name_then_bad_age sample_store
     = (fst (patch lower_ascii (IdNum 2) name_then_bad_age sample_store),
        400, Error ''Invalid 'age'. Must be a positive number.'')
   \<and> email (students (fst (patch lower_ascii (IdNum 2) name_then_bad_age sample_store)) ! 1)
       = ''bob@example.com''"
proof -
  have k: "findIndex (\<lambda>s. sid s = 2) (students sample_store) = Some 1"
    by (simp add: sample_store_def sample_students_def)
  have f: "\<not> text_fails (b_name name_then_bad_age) \<and> age_fails (b_age name_then_bad_age)"
    by (simp add: name_then_bad_age_def text_fails_def age_fails_def is_text_def
        positive_number_def)
  have u: "b_email name_then_bad_age = JUndefined"
    by (simp add: name_then_bad_age_def)
  note t = patch_validation[OF k, where b = name_then_bad_age]
  from t f have "snd (patch lower_ascii (IdNum 2) name_then_bad_age sample_store) = invalid_age"
    by blast
  moreover from t u
  have "email (students (fst (patch lower_ascii (IdNum 2) name_then_bad_age sample_store)) ! 1)
          = email (students sample_store ! 1)"
    by blast
  ultimately show ?thesis
    by (simp add: invalid_age_def sample_store_def sample_students_def prod_eq_iff)
qed

theorem patch_empty_name_counterexample:
  "b_name empty_name_only \<noteq> JUndefined
   \<and> \<not> nonempty_text (b_name empty_name_only)
   \<and> validate \<lparr>b_name = JStr [], b_age = JNum 22, b_email = JStr ''bob@example.com'',
               b_isActive = JBool True\<rparr> = [name_msg]
   \<and> patch lower_ascii (IdNum 2) empty_name_only sample_store =
       (\<lparr>students =
           [\<lparr>sid = 1, name = ''Alice Johnson'', age = 20, email = ''alice@example.com'',
             isActive = True\<rparr>,
            \<lparr>sid = 2, name = [], age = 22, email = ''bob@example.com'', isActive = True\<rparr>,
            \<lparr>sid = 3, name = ''Charlie Brown'', age = 19, email = ''charlie@example.com'',
             isActive = False\<rparr>],
         json_file =
           [\<lparr>sid = 1, name = ''Alice Johnson'', age = 20, email = ''alice@example.com'',
             isActive = True\<rparr>,
            \<lparr>sid = 2, name = [], age = 22, email = ''bob@example.com'', isActive = True\<rparr>,
            \<lparr>sid = 3, name = ''Charlie Brown'', age = 19, email = ''charlie@example.com'',
             isActive = False\<rparr>]\<rparr>,
        200,
        MessageStudent ''Student partially updated''
          \<lparr>sid = 2, name = [], age = 22, email = ''bob@example.com'', isActive = True\<rparr>)"
  by (simp add: empty_name_only_def nonempty_text_def validate_def patch_def patch_name_def
      patch_age_def patch_email_def patch_isActive_def sample_store_def sample_students_def
      saveStudents_def)

end
